theory Spec2Isabelle
  imports Main "HOL-Library.Word"
begin

section \<open>The sampling profiler of examples/c/profile.c\<close>

text \<open>
  The program opens one perf counter per online CPU, attaches a BPF program to each,
  and then drains a ring buffer of stack-trace records; every record is symbolized
  (kernel stack and user stack) and printed. What the program does to the outside
  world is recorded as a list of effects, in program order: every \<^verbatim>\<open>printf\<close> call
  with its format string and its arguments (the formatting itself is libc's and is
  not interpreted), every call of the symbolizer, every system resource that is
  opened or released.
\<close>

subsection \<open>Data\<close>

type_synonym u64 = "64 word"

text \<open>An argument of a \<^verbatim>\<open>printf\<close> call.\<close>

datatype arg = A_str string | A_u64 u64 | A_uint nat | A_int int

text \<open>
  Modelled from the spec: the types of the symbolizer library, which profile.c takes from
  the header blazesym.h. They are the Symbol Result of the specification, with the field
  names profile.c reads. First \<^verbatim>\<open>blaze_symbolize_code_info\<close>, the source location: \<^verbatim>\<open>dir\<close>
  and \<^verbatim>\<open>file\<close> are C strings that may be \<^verbatim>\<open>NULL\<close> (\<open>None\<close>).
\<close>

record code_info =
  ci_dir :: "string option"
  ci_file :: "string option"
  ci_line :: nat

text \<open>\<^verbatim>\<open>blaze_symbolize_inlined_fn\<close>.\<close>

record inlined_fn =
  inl_name :: string
  inl_code_info :: code_info

text \<open>
  \<^verbatim>\<open>blaze_sym\<close>: \<open>name\<close> is \<^verbatim>\<open>NULL\<close> (\<open>None\<close>) when the address could not be resolved. The
  counted array \<^verbatim>\<open>inlined\<close>/\<^verbatim>\<open>inlined_cnt\<close> is the list \<open>inlined\<close>, its count the length.
\<close>

record blaze_sym =
  name :: "string option"
  addr :: u64
  offset :: u64
  sym_code_info :: code_info
  inlined :: "inlined_fn list"

text \<open>
  \<^verbatim>\<open>blaze_syms\<close> is a counted array too: \<^verbatim>\<open>syms->cnt\<close> is the length of the list, and
  \<^verbatim>\<open>syms->syms[i]\<close> is a read at index \<open>i\<close>, which is only defined below the count.
\<close>

type_synonym blaze_syms = "blaze_sym list"

text \<open>
  The two symbolization sources the program builds: \<^verbatim>\<open>blaze_symbolize_src_kernel\<close> and
  \<^verbatim>\<open>blaze_symbolize_src_process\<close> with its pid.
\<close>

datatype blaze_src = Src_kernel | Src_process int

text \<open>
  The symbolizer is an external library with internal state (its caches) of some type
  \<open>'s\<close>. One call takes the state, the source and the addresses, and returns either
  \<^verbatim>\<open>NULL\<close> (\<open>Inl\<close>, with the text that \<^verbatim>\<open>blaze_err_str(blaze_err_last())\<close> then gives) or
  the result array (\<open>Inr\<close>), together with the new state.
\<close>

type_synonym 's blaze_symbolizer = "'s \<Rightarrow> blaze_src \<Rightarrow> u64 list \<Rightarrow> (string + blaze_syms) \<times> 's"

text \<open>
  Modelled from the spec: \<^verbatim>\<open>struct stacktrace_event\<close>, which profile.c takes from its header
  profile.h. It is the Event Record of the specification (process id, command name,
  execution unit, kernel frames and user frames with their lengths), with the field
  names profile.c reads. \<open>kstack_sz\<close> and \<open>ustack_sz\<close> are what profile.c divides by
  \<^verbatim>\<open>sizeof(__u64)\<close> to get the number of frames: the sizes in bytes of the captured stacks,
  or a negative error code of the capture.
\<close>

record stacktrace_event =
  pid :: int
  cpu_id :: int
  comm :: string
  kstack_sz :: int
  ustack_sz :: int
  kstack :: "u64 list"
  ustack :: "u64 list"

datatype perf_type = PERF_TYPE_HARDWARE | PERF_TYPE_SOFTWARE

datatype perf_config = PERF_COUNT_HW_CPU_CYCLES | PERF_COUNT_SW_CPU_CLOCK

text \<open>
  The fields of \<^verbatim>\<open>struct perf_event_attr\<close> that main sets after zeroing the struct.
  \<open>attr_freq\<close> is the one-bit flag \<^verbatim>\<open>freq\<close> that makes the kernel read \<^verbatim>\<open>sample_freq\<close> as a
  frequency and not as a period.
\<close>

record perf_event_attr =
  attr_type :: perf_type
  attr_config :: perf_config
  attr_sample_freq :: int
  attr_freq :: bool

text \<open>Everything the program does that can be observed from outside, in program order.\<close>

datatype effect =
    Printf string "arg list"
  | Fprintf_stderr string "arg list"
  | Blaze_symbolize blaze_src "u64 list"
  | Blaze_syms_free
  | Perf_event_open perf_event_attr nat
  | Attach_perf_event int
  | Bpf_link_destroy "nat option"
  | Close int
  | Ring_buffer_free bool
  | Profile_bpf_destroy bool
  | Blaze_symbolizer_free bool

text \<open>
  Reads of \<^verbatim>\<open>syms->syms[i]\<close> and of \<^verbatim>\<open>stack[i]\<close>. Outside the array the C program has no
  defined behaviour; the model makes that a fault of its own, which ends the run.
\<close>

datatype fault = Syms_out_of_bounds nat | Stack_out_of_bounds nat

definition syms_at :: "blaze_syms \<Rightarrow> nat \<Rightarrow> fault + blaze_sym" where
  "syms_at syms i = (if i < length syms then Inr (syms ! i) else Inl (Syms_out_of_bounds i))"

definition stack_at :: "u64 list \<Rightarrow> nat \<Rightarrow> fault + u64" where
  "stack_at stack i = (if i < length stack then Inr (stack ! i) else Inl (Stack_out_of_bounds i))"

text \<open>Effects done first, then a computation that may fault.\<close>

definition prepend :: "effect list \<Rightarrow> fault + effect list \<Rightarrow> fault + effect list" where
  "prepend es r = (case r of Inl f \<Rightarrow> Inl f | Inr es' \<Rightarrow> Inr (es @ es'))"

subsection \<open>print\_frame\<close>

text \<open>
  The three-way choice on the source location is the same in both branches of the C
  function: directory and file known, only the file known, anything else. A \<^verbatim>\<open>NULL\<close>
  \<^verbatim>\<open>code_info\<close> pointer is \<open>None\<close>.
\<close>

definition print_frame :: "string \<Rightarrow> u64 \<Rightarrow> u64 \<Rightarrow> u64 \<Rightarrow> code_info option \<Rightarrow> effect list" where
  "print_frame nm input_addr a off ci =
     (if input_addr \<noteq> 0 then
        Printf ''%016lx: %s @ 0x%lx+0x%lx'' [A_u64 input_addr, A_str nm, A_u64 a, A_u64 off] #
        (case map_option (\<lambda>c. (ci_dir c, ci_file c, ci_line c)) ci of
           Some (Some d, Some f, l) \<Rightarrow> [Printf '' %s/%s:%u\<newline>'' [A_str d, A_str f, A_uint l]]
         | Some (_, Some f, l) \<Rightarrow> [Printf '' %s:%u\<newline>'' [A_str f, A_uint l]]
         | _ \<Rightarrow> [Printf ''\<newline>'' []])
      else
        Printf ''%16s  %s'' [A_str [], A_str nm] #
        (case map_option (\<lambda>c. (ci_dir c, ci_file c, ci_line c)) ci of
           Some (Some d, Some f, l) \<Rightarrow>
             [Printf ''@ %s/%s:%u [inlined]\<newline>'' [A_str d, A_str f, A_uint l]]
         | Some (_, Some f, l) \<Rightarrow> [Printf ''@ %s:%u [inlined]\<newline>'' [A_str f, A_uint l]]
         | _ \<Rightarrow> [Printf ''[inlined]\<newline>'' []]))"

subsection \<open>show\_stack\_trace\<close>

text \<open>The inner loop over \<^verbatim>\<open>sym->inlined[j]\<close>, \<open>j\<close> from its start value up to \<^verbatim>\<open>inlined_cnt\<close>.\<close>

function print_inlined :: "inlined_fn list \<Rightarrow> nat \<Rightarrow> effect list" where
  "print_inlined inls j =
     (if j < length inls then
        print_frame (inl_name (inls ! j)) 0 0 0 (Some (inl_code_info (inls ! j))) @
        print_inlined inls (Suc j)
      else [])"
  by pat_completeness auto
termination
  by (relation "measure (\<lambda>(inls, j). length inls - j)") auto

declare print_inlined.simps [simp del]

text \<open>
  The outer loop, \<open>i\<close> from its start value up to \<open>stack_sz\<close>. The test
  \<^verbatim>\<open>!syms || syms->cnt <= i || syms->syms[i].name == NULL\<close> is evaluated left to right and
  stops at the first true operand (\<open>syms\<close> is not \<^verbatim>\<open>NULL\<close> here), so the array is read only
  after the comparison with the count.
\<close>

function print_stack :: "blaze_syms \<Rightarrow> u64 list \<Rightarrow> nat \<Rightarrow> nat \<Rightarrow> fault + effect list" where
  "print_stack syms stack stack_sz i =
     (if i < stack_sz then
        (if length syms \<le> i then
           (case stack_at stack i of
              Inl f \<Rightarrow> Inl f
            | Inr a \<Rightarrow>
                prepend [Printf ''%016llx: <no-symbol>\<newline>'' [A_u64 a]]
                  (print_stack syms stack stack_sz (Suc i)))
         else
           (case syms_at syms i of
              Inl f \<Rightarrow> Inl f
            | Inr sm \<Rightarrow>
                (case stack_at stack i of
                   Inl f \<Rightarrow> Inl f
                 | Inr a \<Rightarrow>
                     (case name sm of
                        None \<Rightarrow>
                          prepend [Printf ''%016llx: <no-symbol>\<newline>'' [A_u64 a]]
                            (print_stack syms stack stack_sz (Suc i))
                      | Some nm \<Rightarrow>
                          prepend
                            (print_frame nm a (addr sm) (offset sm) (Some (sym_code_info sm)) @
                             print_inlined (inlined sm) 0)
                            (print_stack syms stack stack_sz (Suc i))))))
      else Inr [])"
  by pat_completeness auto
termination
  by (relation "measure (\<lambda>(syms, stack, stack_sz, i). stack_sz - i)") auto

declare print_stack.simps [simp del]

text \<open>
  \<open>stack\<close> is the array the pointer refers to and \<open>stack_sz\<close> the count passed with it (the
  program only passes counts that are not negative); the symbolizer is given the first
  \<open>stack_sz\<close> addresses. A pid other than 0 selects the process source, pid 0 the
  kernel source.
\<close>

definition show_stack_trace ::
  "'s blaze_symbolizer \<Rightarrow> 's \<Rightarrow> u64 list \<Rightarrow> nat \<Rightarrow> int \<Rightarrow> fault + effect list \<times> 's" where
  "show_stack_trace symbolizer st stack stack_sz p =
     (let src = (if p \<noteq> 0 then Src_process p else Src_kernel);
          addrs = take stack_sz stack
      in case symbolizer st src addrs of
           (Inl err, st') \<Rightarrow>
             Inr ([Blaze_symbolize src addrs,
                   Printf ''  failed to symbolize addresses: %s\<newline>'' [A_str err]], st')
         | (Inr syms, st') \<Rightarrow>
             (case print_stack syms stack stack_sz 0 of
                Inl f \<Rightarrow> Inl f
              | Inr es \<Rightarrow> Inr (Blaze_symbolize src addrs # es @ [Blaze_syms_free], st')))"

subsection \<open>event\_handler\<close>

text \<open>
  The callback of the ring buffer. It returns 1 for a record it skips and 0 for a record
  it has printed. The counts passed on are \<^verbatim>\<open>kstack_sz / sizeof(__u64)\<close> and
  \<^verbatim>\<open>ustack_sz / sizeof(__u64)\<close>, computed only where the size is positive.
\<close>

definition event_handler ::
  "'s blaze_symbolizer \<Rightarrow> 's \<Rightarrow> stacktrace_event \<Rightarrow> fault + int \<times> effect list \<times> 's" where
  "event_handler symbolizer st ev =
     (if kstack_sz ev \<le> 0 \<and> ustack_sz ev \<le> 0 then Inr (1, [], st)
      else
        (case (if kstack_sz ev > 0 then
                 (case show_stack_trace symbolizer st (kstack ev) (nat (kstack_sz ev div 8)) 0 of
                    Inl f \<Rightarrow> Inl f
                  | Inr (es, st1) \<Rightarrow> Inr (Printf ''Kernel:\<newline>'' [] # es, st1))
               else Inr ([Printf ''No Kernel Stack\<newline>'' []], st)) of
           Inl f \<Rightarrow> Inl f
         | Inr (kes, st1) \<Rightarrow>
             (case (if ustack_sz ev > 0 then
                      (case show_stack_trace symbolizer st1 (ustack ev)
                              (nat (ustack_sz ev div 8)) (pid ev) of
                         Inl f \<Rightarrow> Inl f
                       | Inr (es, st2) \<Rightarrow> Inr (Printf ''Userspace:\<newline>'' [] # es, st2))
                    else Inr ([Printf ''No Userspace Stack\<newline>'' []], st1)) of
                Inl f \<Rightarrow> Inl f
              | Inr (ues, st2) \<Rightarrow>
                  Inr (0,
                       Printf ''COMM: %s (pid=%d) @ CPU %d\<newline>''
                         [A_str (comm ev), A_int (pid ev), A_int (cpu_id ev)] #
                       kes @ ues @ [Printf ''\<newline>'' []],
                       st2))))"

subsection \<open>The ring buffer\<close>

text \<open>
  One call of \<^verbatim>\<open>ring_buffer__poll\<close> hands the records that are available to the callback,
  one after the other in the order of the buffer. The library stops at a callback that
  returns a negative number and returns that number (\<open>Some\<close>); \<open>None\<close> says that the
  callback has seen every record.
\<close>

fun ring_buffer_consume ::
  "'s blaze_symbolizer \<Rightarrow> 's \<Rightarrow> stacktrace_event list \<Rightarrow> fault + int option \<times> effect list \<times> 's" where
  "ring_buffer_consume symbolizer st [] = Inr (None, [], st)"
| "ring_buffer_consume symbolizer st (ev # evs) =
     (case event_handler symbolizer st ev of
        Inl f \<Rightarrow> Inl f
      | Inr (r, es, st1) \<Rightarrow>
          if r < 0 then Inr (Some r, es, st1)
          else
            (case ring_buffer_consume symbolizer st1 evs of
               Inl f \<Rightarrow> Inl f
             | Inr (a, es2, st2) \<Rightarrow> Inr (a, es @ es2, st2)))"

text \<open>
  The loop \<^verbatim>\<open>while (ring_buffer__poll(ring_buf, -1) >= 0) {}\<close>. The environment gives the
  calls of \<^verbatim>\<open>ring_buffer__poll\<close> that have returned so far: for each one the records it
  delivered and the number it returned. The loop may wait for ever; when every call so
  far has returned a number that is not negative, the program is still in the loop
  (\<open>False\<close>). \<open>True\<close> says that the loop has ended.
\<close>

fun wait_loop ::
  "'s blaze_symbolizer \<Rightarrow> 's \<Rightarrow> (stacktrace_event list \<times> int) list \<Rightarrow>
     fault + bool \<times> effect list \<times> 's" where
  "wait_loop symbolizer st [] = Inr (False, [], st)"
| "wait_loop symbolizer st ((evs, ret) # polls) =
     (case ring_buffer_consume symbolizer st evs of
        Inl f \<Rightarrow> Inl f
      | Inr (a, es, st1) \<Rightarrow>
          if (case a of Some r \<Rightarrow> r | None \<Rightarrow> ret) \<ge> 0 then
            (case wait_loop symbolizer st1 polls of
               Inl f \<Rightarrow> Inl f
             | Inr (b, es2, st2) \<Rightarrow> Inr (b, es @ es2, st2))
          else Inr (True, es, st1))"

subsection \<open>main\<close>

text \<open>
  What \<^verbatim>\<open>getopt_long\<close> returns, call after call, until it returns -1: \<^verbatim>\<open>'f'\<close> (here with
  the value of \<^verbatim>\<open>atoi(optarg)\<close>), \<^verbatim>\<open>'s'\<close>, \<^verbatim>\<open>'h'\<close>, or anything else.
\<close>

datatype getopt_ret = Opt_f int | Opt_s | Opt_h | Opt_other

text \<open>
  The environment of one run: the answers of the libraries and of the kernel.
  \<open>parse_cpu_mask_file\<close> gives its return value and the mask (\<^verbatim>\<open>num_online_cpus\<close> is the
  length of the mask); the three constructors say whether they return an object
  (\<open>True\<close>) or \<^verbatim>\<open>NULL\<close>; \<open>perf_event_open\<close> gives, for the attributes and the CPU, the
  return value of the system call and \<^verbatim>\<open>errno\<close>; \<open>bpf_program_attach_perf_event\<close> gives
  the link for a counter, or \<^verbatim>\<open>NULL\<close> (\<open>None\<close>); \<open>symbolize\<close> is the symbolizer library and
  \<open>symbolize_state\<close> its state after \<^verbatim>\<open>blaze_symbolizer_new\<close>.
\<close>

record 's env =
  progname :: string
  getopt_long :: "getopt_ret list"
  parse_cpu_mask_file :: "int \<times> bool list"
  libbpf_num_possible_cpus :: int
  profile_bpf_open_and_load :: bool
  blaze_symbolizer_new :: bool
  ring_buffer_new :: bool
  perf_event_open :: "perf_event_attr \<Rightarrow> nat \<Rightarrow> int \<times> int"
  bpf_program_attach_perf_event :: "int \<Rightarrow> nat option"
  ring_buffer_poll :: "(stacktrace_event list \<times> int) list"
  symbolize :: "'s blaze_symbolizer"
  symbolize_state :: 's

text \<open>
  How a run stands: main has returned a status (the value of \<^verbatim>\<open>return\<close>, an \<^verbatim>\<open>int\<close>), or it
  is still in the wait loop, or a read outside an array has ended it.
\<close>

datatype outcome = Exit int | Waiting | Crashed fault

record run =
  outcome :: outcome
  trace :: "effect list"

definition ENOENT :: int where
  "ENOENT = 2"

definition show_help :: "string \<Rightarrow> effect list" where
  "show_help pn =
     [Printf ''Usage: %s [-f <frequency>] [--sw-event] [-h]\<newline>'' [A_str pn],
      Printf ''Options:\<newline>'' [],
      Printf ''  -f <frequency>  Sampling frequency [default: 1]\<newline>'' [],
      Printf ''  --sw-event      Use software event for triggering stack trace capture\<newline>'' [],
      Printf ''  -h              Print help\<newline>'' []]"

text \<open>
  The option loop, with the current values of \<^verbatim>\<open>freq\<close> and \<^verbatim>\<open>sw_event\<close>. \<open>Inl\<close> is the
  branch that prints the help and returns 1 at once.
\<close>

fun parse_args :: "getopt_ret list \<Rightarrow> int \<Rightarrow> bool \<Rightarrow> unit + int \<times> bool" where
  "parse_args [] fr sw = Inr (fr, sw)"
| "parse_args (Opt_f v # rest) fr sw = parse_args rest (if v < 1 then 1 else v) sw"
| "parse_args (Opt_s # rest) fr sw = parse_args rest fr True"
| "parse_args (Opt_h # rest) fr sw = Inl ()"
| "parse_args (Opt_other # rest) fr sw = Inl ()"

text \<open>
  The loop over the CPUs, from \<open>cpu\<close> up to \<open>num_cpus\<close>, with the arrays \<open>pefds\<close> and
  \<open>links\<close>. It returns \<^verbatim>\<open>err\<close> (0 when the loop has run to its end, -1 at a
  \<^verbatim>\<open>goto cleanup\<close>), the two arrays and the effects.
\<close>

function open_counters ::
  "'s env \<Rightarrow> perf_event_attr \<Rightarrow> bool \<Rightarrow> nat \<Rightarrow> bool list \<Rightarrow> nat \<Rightarrow> int list \<Rightarrow> nat option list \<Rightarrow>
     int \<times> int list \<times> nat option list \<times> effect list" where
  "open_counters env attr sw_event num_cpus online_mask cpu pefds links =
     (if cpu < num_cpus then
        (if cpu \<ge> length online_mask \<or> \<not> online_mask ! cpu then
           open_counters env attr sw_event num_cpus online_mask (Suc cpu) pefds links
         else
           (case perf_event_open env attr cpu of
              (pefd, errno) \<Rightarrow>
                if pefd < 0 then
                  (- 1, pefds, links,
                   [Perf_event_open attr cpu,
                    if \<not> sw_event \<and> errno = ENOENT then
                      Fprintf_stderr
                        (''Fail to set up performance monitor on a CPU/Core.\<newline>'' @
                         ''Try running the profile example with the `--sw-event` option.\<newline>'') []
                    else
                      Fprintf_stderr ''Fail to set up performance monitor on a CPU/Core.\<newline>'' []])
                else
                  (case bpf_program_attach_perf_event env pefd of
                     None \<Rightarrow>
                       (- 1, pefds[cpu := pefd], links[cpu := None],
                        [Perf_event_open attr cpu, Attach_perf_event pefd])
                   | Some l \<Rightarrow>
                       (case open_counters env attr sw_event num_cpus online_mask (Suc cpu)
                               (pefds[cpu := pefd]) (links[cpu := Some l]) of
                          (err, pefds', links', es) \<Rightarrow>
                            (err, pefds', links',
                             Perf_event_open attr cpu # Attach_perf_event pefd # es)))))
      else (0, pefds, links, []))"
  by pat_completeness auto
termination
  by (relation "measure (\<lambda>(env, attr, sw_event, num_cpus, online_mask, cpu, pefds, links).
        num_cpus - cpu)") auto

declare open_counters.simps [simp del]

text \<open>
  The code after the label \<^verbatim>\<open>cleanup\<close>. \<open>links\<close> and \<open>pefds\<close> are \<open>None\<close> while the pointers
  are \<^verbatim>\<open>NULL\<close>; the three flags say whether the ring buffer, the skeleton and the
  symbolizer exist.
\<close>

definition cleanup ::
  "nat option list option \<Rightarrow> int list option \<Rightarrow> bool \<Rightarrow> bool \<Rightarrow> bool \<Rightarrow> effect list" where
  "cleanup links pefds ring_buf skel symb =
     (case links of None \<Rightarrow> [] | Some ls \<Rightarrow> map Bpf_link_destroy ls) @
     (case pefds of None \<Rightarrow> [] | Some ps \<Rightarrow> map Close (filter (\<lambda>fd. fd \<ge> 0) ps)) @
     [Ring_buffer_free ring_buf, Profile_bpf_destroy skel, Blaze_symbolizer_free symb]"

text \<open>\<^verbatim>\<open>goto cleanup\<close> with the value of \<^verbatim>\<open>err\<close>: the effects so far, the cleanup, \<^verbatim>\<open>return -err\<close>.\<close>

definition goto_cleanup ::
  "int \<Rightarrow> effect list \<Rightarrow> nat option list option \<Rightarrow> int list option \<Rightarrow> bool \<Rightarrow> bool \<Rightarrow> bool \<Rightarrow> run" where
  "goto_cleanup err es links pefds ring_buf skel symb =
     \<lparr>outcome = Exit (- err), trace = es @ cleanup links pefds ring_buf skel symb\<rparr>"

text \<open>
  \<^verbatim>\<open>main\<close>. The arrays \<^verbatim>\<open>pefds\<close> (filled with -1) and \<^verbatim>\<open>links\<close> (zeroed by \<^verbatim>\<open>calloc\<close>) have
  \<^verbatim>\<open>num_cpus\<close> entries; the two allocations are taken to succeed, as the program takes
  them. \<^verbatim>\<open>num_cpus\<close> is positive where it is used as a count. The value of \<^verbatim>\<open>freq\<close> is at
  least 1 when it is stored in the field \<^verbatim>\<open>sample_freq\<close>, so the conversion to the
  unsigned field keeps it.
\<close>

definition main :: "'s env \<Rightarrow> run" where
  "main env =
     (case parse_args (getopt_long env) 1 False of
        Inl u \<Rightarrow> \<lparr>outcome = Exit 1, trace = show_help (progname env)\<rparr>
      | Inr (fr, sw_event) \<Rightarrow>
          (case parse_cpu_mask_file env of
             (err, online_mask) \<Rightarrow>
               if err \<noteq> 0 then
                 goto_cleanup err
                   [Fprintf_stderr ''Fail to get online CPU numbers: %d\<newline>'' [A_int err]]
                   None None False False False
               else if libbpf_num_possible_cpus env \<le> 0 then
                 goto_cleanup (- 1)
                   [Fprintf_stderr ''Fail to get the number of processors\<newline>'' []]
                   None None False False False
               else if \<not> profile_bpf_open_and_load env then
                 goto_cleanup (- 1)
                   [Fprintf_stderr ''Fail to open and load BPF skeleton\<newline>'' []]
                   None None False False False
               else if \<not> blaze_symbolizer_new env then
                 goto_cleanup (- 1)
                   [Fprintf_stderr ''Fail to create a symbolizer\<newline>'' []]
                   None None False True False
               else if \<not> ring_buffer_new env then
                 goto_cleanup (- 1) [] None None False True True
               else
                 (let num_cpus = nat (libbpf_num_possible_cpus env);
                      attr = \<lparr>attr_type = (if sw_event then PERF_TYPE_SOFTWARE else PERF_TYPE_HARDWARE),
                              attr_config = (if sw_event then PERF_COUNT_SW_CPU_CLOCK
                                             else PERF_COUNT_HW_CPU_CYCLES),
                              attr_sample_freq = fr,
                              attr_freq = True\<rparr>
                  in case open_counters env attr sw_event num_cpus online_mask 0
                            (replicate num_cpus (- 1)) (replicate num_cpus None) of
                       (err, pefds, links, es) \<Rightarrow>
                         if err \<noteq> 0 then goto_cleanup err es (Some links) (Some pefds) True True True
                         else
                           (case wait_loop (symbolize env) (symbolize_state env)
                                   (ring_buffer_poll env) of
                              Inl f \<Rightarrow> \<lparr>outcome = Crashed f, trace = es\<rparr>
                            | Inr (ended, wes, st) \<Rightarrow>
                                if ended then
                                  goto_cleanup err (es @ wes) (Some links) (Some pefds) True True True
                                else \<lparr>outcome = Waiting, trace = es @ wes\<rparr>))))"

section \<open>What the specification says, in the terms of the model\<close>

subsection \<open>The Reporter\<close>

text \<open>
  The Symbol Result for the input address number \<open>i\<close>: the element \<open>i\<close> of the result
  array when there is one and it has a name, and "no symbol" (\<open>None\<close>) otherwise.
\<close>

definition sym_result :: "blaze_syms \<Rightarrow> nat \<Rightarrow> blaze_sym option" where
  "sym_result syms i =
     (if i < length syms \<and> name (syms ! i) \<noteq> None then Some (syms ! i) else None)"

text \<open>
  What one pass of the loop of \<^verbatim>\<open>show_stack_trace\<close> prints for the address \<open>a\<close> with the
  Symbol Result \<open>r\<close>: the line of the address itself, then one line for each inlined
  function.
\<close>

definition frame_block :: "u64 \<Rightarrow> blaze_sym option \<Rightarrow> effect list" where
  "frame_block a r =
     (case r of
        None \<Rightarrow> [Printf ''%016llx: <no-symbol>\<newline>'' [A_u64 a]]
      | Some s \<Rightarrow>
          print_frame (the (name s)) a (addr s) (offset s) (Some (sym_code_info s)) @
          concat (map (\<lambda>inl. print_frame (inl_name inl) 0 0 0 (Some (inl_code_info inl)))
                    (inlined s)))"

text \<open>
  The line of an out-of-line frame as the specification has it: the raw address, the
  name of the symbol, the start address of the symbol, the offset, and the source
  location if it is known.
\<close>

definition spec_out_of_line_line :: "u64 \<Rightarrow> blaze_sym \<Rightarrow> effect list" where
  "spec_out_of_line_line a s =
     [Printf ''%016lx: %s @ 0x%lx+0x%lx''
        [A_u64 a, A_str (the (name s)), A_u64 (addr s), A_u64 (offset s)],
      (case (ci_dir (sym_code_info s), ci_file (sym_code_info s)) of
         (Some d, Some f) \<Rightarrow>
           Printf '' %s/%s:%u\<newline>'' [A_str d, A_str f, A_uint (ci_line (sym_code_info s))]
       | (None, Some f) \<Rightarrow> Printf '' %s:%u\<newline>'' [A_str f, A_uint (ci_line (sym_code_info s))]
       | (_, None) \<Rightarrow> Printf ''\<newline>'' [])]"

text \<open>
  The line of an inlined frame as the specification has it: no address and no offset,
  the name, the source location if it is known, and the mark \<^verbatim>\<open>[inlined]\<close>.
\<close>

definition spec_inlined_line :: "inlined_fn \<Rightarrow> effect list" where
  "spec_inlined_line inl =
     [Printf ''%16s  %s'' [A_str [], A_str (inl_name inl)],
      (case (ci_dir (inl_code_info inl), ci_file (inl_code_info inl)) of
         (Some d, Some f) \<Rightarrow>
           Printf ''@ %s/%s:%u [inlined]\<newline>''
             [A_str d, A_str f, A_uint (ci_line (inl_code_info inl))]
       | (None, Some f) \<Rightarrow>
           Printf ''@ %s:%u [inlined]\<newline>'' [A_str f, A_uint (ci_line (inl_code_info inl))]
       | (_, None) \<Rightarrow> Printf ''[inlined]\<newline>'' [])]"

text \<open>
  The lines the specification asks for one address: the "no symbol" line, or the line
  of the out-of-line frame followed by the lines of its inlined frames.
\<close>

definition spec_frame_lines :: "u64 \<Rightarrow> blaze_sym option \<Rightarrow> effect list" where
  "spec_frame_lines a r =
     (case r of
        None \<Rightarrow> [Printf ''%016llx: <no-symbol>\<newline>'' [A_u64 a]]
      | Some s \<Rightarrow> spec_out_of_line_line a s @ concat (map spec_inlined_line (inlined s)))"

text \<open>
  Reading the output back: the raw addresses of the lines that start with an address
  (a "no symbol" line or the line of an out-of-line frame), in the order of the output.
\<close>

definition out_of_line_addr :: "effect \<Rightarrow> u64 list" where
  "out_of_line_addr e =
     (case e of
        Printf fmt (A_u64 a # args) \<Rightarrow>
          if fmt = ''%016llx: <no-symbol>\<newline>'' \<or> fmt = ''%016lx: %s @ 0x%lx+0x%lx'' then [a]
          else []
      | _ \<Rightarrow> [])"

definition out_of_line_addrs :: "effect list \<Rightarrow> u64 list" where
  "out_of_line_addrs es = concat (map out_of_line_addr es)"


subsection \<open>The consumer\<close>

text \<open>Reading the trace back: the calls of the symbolizer, with source and addresses.\<close>

definition symbolizer_call :: "effect \<Rightarrow> (blaze_src \<times> u64 list) list" where
  "symbolizer_call e = (case e of Blaze_symbolize src addrs \<Rightarrow> [(src, addrs)] | _ \<Rightarrow> [])"

definition symbolizer_calls :: "effect list \<Rightarrow> (blaze_src \<times> u64 list) list" where
  "symbolizer_calls es = concat (map symbolizer_call es)"

text \<open>
  The invariant of a record that the specification states: the two stacks fit in their
  arrays (the counts \<^verbatim>\<open>kstack_sz / 8\<close> and \<^verbatim>\<open>ustack_sz / 8\<close> are at most the fixed depth).
\<close>

definition wf_event :: "stacktrace_event \<Rightarrow> bool" where
  "wf_event ev =
     (nat (kstack_sz ev div 8) \<le> length (kstack ev) \<and>
      nat (ustack_sz ev div 8) \<le> length (ustack ev))"

text \<open>
  The pipeline that goes on whatever happens to one record: every record is handed to
  the handler, in order, and the outputs follow each other.
\<close>

fun handle_all ::
  "'s blaze_symbolizer \<Rightarrow> 's \<Rightarrow> stacktrace_event list \<Rightarrow> fault + effect list \<times> 's" where
  "handle_all sy st [] = Inr ([], st)"
| "handle_all sy st (ev # evs) =
     (case event_handler sy st ev of
        Inl f \<Rightarrow> Inl f
      | Inr (r, es, st1) \<Rightarrow>
          (case handle_all sy st1 evs of
             Inl f \<Rightarrow> Inl f
           | Inr (es2, st2) \<Rightarrow> Inr (es @ es2, st2)))"

subsection \<open>The options\<close>

text \<open>
  The \<^verbatim>\<open>-f\<close> argument that is in effect: the value of the last \<^verbatim>\<open>-f\<close> option given, if
  there is one.
\<close>

fun last_f :: "getopt_ret list \<Rightarrow> int option" where
  "last_f [] = None"
| "last_f (Opt_f v # rest) = (case last_f rest of None \<Rightarrow> Some v | Some w \<Rightarrow> Some w)"
| "last_f (Opt_s # rest) = last_f rest"
| "last_f (Opt_h # rest) = last_f rest"
| "last_f (Opt_other # rest) = last_f rest"

text \<open>
  The sampling frequency the specification asks for: the default 1 without a \<^verbatim>\<open>-f\<close>
  option; 1 for an argument that is 0 or negative; the argument itself otherwise.
\<close>

definition spec_frequency :: "getopt_ret list \<Rightarrow> int" where
  "spec_frequency opts = (case last_f opts of None \<Rightarrow> 1 | Some v \<Rightarrow> if v \<le> 0 then 1 else v)"

text \<open>
  \<^verbatim>\<open>-h\<close> or an option that is not known: the usage is printed and the program exits with 1.
\<close>

definition help_requested :: "getopt_ret list \<Rightarrow> bool" where
  "help_requested opts = list_ex (\<lambda>x. x = Opt_h \<or> x = Opt_other) opts"

text \<open>
  \<^verbatim>\<open>--sw-event\<close> selects the software counter; the mode is the hardware counter without
  it. \<open>spec_attr\<close> is the configuration of a counter for these options, with sampling by
  frequency.
\<close>

definition sw_event_mode :: "getopt_ret list \<Rightarrow> bool" where
  "sw_event_mode opts = list_ex (\<lambda>x. x = Opt_s) opts"

definition spec_attr :: "getopt_ret list \<Rightarrow> perf_event_attr" where
  "spec_attr opts =
     \<lparr>attr_type = (if sw_event_mode opts then PERF_TYPE_SOFTWARE else PERF_TYPE_HARDWARE),
      attr_config = (if sw_event_mode opts then PERF_COUNT_SW_CPU_CLOCK else PERF_COUNT_HW_CPU_CYCLES),
      attr_sample_freq = spec_frequency opts,
      attr_freq = True\<rparr>"

subsection \<open>The capture sources\<close>


text \<open>
  The effects of handling a record: output on \<^verbatim>\<open>stdout\<close> and the calls of the symbolizer
  library.
\<close>

definition record_effect :: "effect \<Rightarrow> bool" where
  "record_effect e =
     (case e of
        Printf fmt args \<Rightarrow> True
      | Blaze_symbolize src addrs \<Rightarrow> True
      | Blaze_syms_free \<Rightarrow> True
      | _ \<Rightarrow> False)"

text \<open>
  The execution units are the indices below \<^verbatim>\<open>libbpf_num_possible_cpus()\<close>. A unit is online
  when the mask has an entry for it and the entry is set; an index without an entry in
  the mask is absent.
\<close>

definition unit_online :: "'s env \<Rightarrow> nat \<Rightarrow> bool" where
  "unit_online env cpu =
     (cpu < nat (libbpf_num_possible_cpus env) \<and>
      cpu < length (snd (parse_cpu_mask_file env)) \<and>
      snd (parse_cpu_mask_file env) ! cpu)"

text \<open>
  A unit fails when it is online and either its counter cannot be created or the
  program cannot be attached to the counter.
\<close>

definition unit_fails :: "'s env \<Rightarrow> nat \<Rightarrow> bool" where
  "unit_fails env cpu =
     (unit_online env cpu \<and>
      (fst (perf_event_open env (spec_attr (getopt_long env)) cpu) < 0 \<or>
       bpf_program_attach_perf_event env
         (fst (perf_event_open env (spec_attr (getopt_long env)) cpu)) = None))"

text \<open>
  The steps of the setup before the counters: the options, the mask of online CPUs, the
  number of CPUs, the skeleton, the symbolizer, the ring buffer. The startup succeeds
  when these succeed and no unit fails.
\<close>

definition setup_reaches_counters :: "'s env \<Rightarrow> bool" where
  "setup_reaches_counters env =
     (\<not> help_requested (getopt_long env) \<and>
      fst (parse_cpu_mask_file env) = 0 \<and>
      0 < libbpf_num_possible_cpus env \<and>
      profile_bpf_open_and_load env \<and>
      blaze_symbolizer_new env \<and>
      ring_buffer_new env)"

definition startup_ok :: "'s env \<Rightarrow> bool" where
  "startup_ok env =
     (setup_reaches_counters env \<and>
      list_all (\<lambda>cpu. \<not> unit_fails env cpu) [0..<nat (libbpf_num_possible_cpus env)])"

text \<open>
  Reading the trace back: the effects that create a counter or attach the program, the
  number of counters created for a CPU, the number of attachments.
\<close>

definition is_counter_effect :: "effect \<Rightarrow> bool" where
  "is_counter_effect e =
     (case e of Perf_event_open a k \<Rightarrow> True | Attach_perf_event fd \<Rightarrow> True | _ \<Rightarrow> False)"

definition counter_effects :: "effect list \<Rightarrow> effect list" where
  "counter_effects es = filter is_counter_effect es"

definition opens_of :: "nat \<Rightarrow> effect list \<Rightarrow> nat" where
  "opens_of cpu es =
     length (filter (\<lambda>e. case e of Perf_event_open a k \<Rightarrow> k = cpu | _ \<Rightarrow> False) es)"

definition attaches :: "effect list \<Rightarrow> nat" where
  "attaches es = length (filter (\<lambda>e. case e of Attach_perf_event fd \<Rightarrow> True | _ \<Rightarrow> False) es)"

text \<open>
  What the specification asks of a successful startup: for each online unit, in the
  order of the units, one counter and one attachment of the program to that counter.
\<close>

definition setup_effects :: "'s env \<Rightarrow> effect list" where
  "setup_effects env =
     concat (map (\<lambda>cpu. [Perf_event_open (spec_attr (getopt_long env)) cpu,
                         Attach_perf_event
                           (fst (perf_event_open env (spec_attr (getopt_long env)) cpu))])
               (filter (unit_online env) [0..<nat (libbpf_num_possible_cpus env)]))"

section \<open>Example inputs\<close>

definition example_code_info :: code_info where
  "example_code_info = \<lparr>ci_dir = Some ''kernel/sched'', ci_file = Some ''core.c'', ci_line = 6500\<rparr>"

definition no_code_info :: code_info where
  "no_code_info = \<lparr>ci_dir = None, ci_file = None, ci_line = 0\<rparr>"

text \<open>A symbol table of two functions; any other address has no symbol.\<close>

definition example_resolve :: "u64 \<Rightarrow> blaze_sym" where
  "example_resolve a =
     (if a = 0xffffffff81000010 then
        \<lparr>name = Some ''schedule'', addr = 0xffffffff81000000, offset = 0x10,
         sym_code_info = example_code_info,
         inlined = [\<lparr>inl_name = ''context_switch'', inl_code_info = example_code_info\<rparr>,
                    \<lparr>inl_name = ''finish_task_switch'', inl_code_info = no_code_info\<rparr>]\<rparr>
      else if a = 0xffffffff81000200 then
        \<lparr>name = Some ''do_idle'', addr = 0xffffffff810001f0, offset = 0x10,
         sym_code_info = no_code_info, inlined = []\<rparr>
      else \<lparr>name = None, addr = 0, offset = 0, sym_code_info = no_code_info, inlined = []\<rparr>)"

text \<open>
  A symbolizer that resolves kernel addresses with that table and fails as a whole
  for every process; its state counts the calls.
\<close>

definition example_symbolizer :: "nat blaze_symbolizer" where
  "example_symbolizer st src addrs =
     (case src of
        Src_kernel \<Rightarrow> (Inr (map example_resolve addrs), Suc st)
      | Src_process p \<Rightarrow> (Inl ''No such process'', Suc st))"


text \<open>A symbolizer that resolves every address, the address 0 too, to one symbol.\<close>

definition start_sym :: blaze_sym where
  "start_sym =
     \<lparr>name = Some ''start'', addr = 0, offset = 0, sym_code_info = no_code_info, inlined = []\<rparr>"

definition zero_symbolizer :: "nat blaze_symbolizer" where
  "zero_symbolizer st src addrs = (Inr (map (\<lambda>a. start_sym) addrs), Suc st)"

definition example_stack :: "u64 list" where
  "example_stack = [0xffffffff81000010, 0xffffffff81000100, 0xffffffff81000200]"

text \<open>A record with no stack at all: both captures failed.\<close>

definition empty_event :: stacktrace_event where
  "empty_event =
     \<lparr>pid = 1234, cpu_id = 0, comm = ''sh'', kstack_sz = 0, ustack_sz = - 14,
      kstack = [], ustack = []\<rparr>"

text \<open>A record of a kernel thread: a kernel stack of three frames and no user stack.\<close>

definition kernel_only_event :: stacktrace_event where
  "kernel_only_event =
     \<lparr>pid = 17, cpu_id = 1, comm = ''kworker/1:0'', kstack_sz = 24, ustack_sz = - 14,
      kstack = example_stack, ustack = []\<rparr>"

definition kernel_only_output :: "effect list" where
  "kernel_only_output =
     [Printf ''COMM: %s (pid=%d) @ CPU %d\<newline>'' [A_str ''kworker/1:0'', A_int 17, A_int 1],
      Printf ''Kernel:\<newline>'' [],
      Blaze_symbolize Src_kernel example_stack,
      Printf ''%016lx: %s @ 0x%lx+0x%lx''
        [A_u64 0xffffffff81000010, A_str ''schedule'', A_u64 0xffffffff81000000, A_u64 0x10],
      Printf '' %s/%s:%u\<newline>'' [A_str ''kernel/sched'', A_str ''core.c'', A_uint 6500],
      Printf ''%16s  %s'' [A_str [], A_str ''context_switch''],
      Printf ''@ %s/%s:%u [inlined]\<newline>'' [A_str ''kernel/sched'', A_str ''core.c'', A_uint 6500],
      Printf ''%16s  %s'' [A_str [], A_str ''finish_task_switch''],
      Printf ''[inlined]\<newline>'' [],
      Printf ''%016llx: <no-symbol>\<newline>'' [A_u64 0xffffffff81000100],
      Printf ''%016lx: %s @ 0x%lx+0x%lx''
        [A_u64 0xffffffff81000200, A_str ''do_idle'', A_u64 0xffffffff810001f0, A_u64 0x10],
      Printf ''\<newline>'' [],
      Blaze_syms_free,
      Printf ''No Userspace Stack\<newline>'' [],
      Printf ''\<newline>'' []]"

text \<open>A record of a process: one kernel frame and two user frames.\<close>

definition user_event :: stacktrace_event where
  "user_event =
     \<lparr>pid = 1234, cpu_id = 0, comm = ''sh'', kstack_sz = 8, ustack_sz = 16,
      kstack = [0xffffffff81000200], ustack = [0x401000, 0x401234]\<rparr>"


text \<open>What is printed for it when the call for the process fails as a whole.\<close>

definition user_event_failed_output :: "effect list" where
  "user_event_failed_output =
     [Printf ''COMM: %s (pid=%d) @ CPU %d\<newline>'' [A_str ''sh'', A_int 1234, A_int 0],
      Printf ''Kernel:\<newline>'' [],
      Blaze_symbolize Src_kernel [0xffffffff81000200],
      Printf ''%016lx: %s @ 0x%lx+0x%lx''
        [A_u64 0xffffffff81000200, A_str ''do_idle'', A_u64 0xffffffff810001f0, A_u64 0x10],
      Printf ''\<newline>'' [],
      Blaze_syms_free,
      Printf ''Userspace:\<newline>'' [],
      Blaze_symbolize (Src_process 1234) [0x401000, 0x401234],
      Printf ''  failed to symbolize addresses: %s\<newline>'' [A_str ''No such process''],
      Printf ''\<newline>'' []]"

text \<open>
  A machine with four possible CPUs of which CPU 0 and CPU 2 are online, started with
  \<^verbatim>\<open>-f -5\<close>. Every step of the setup succeeds; the first poll delivers one record, the
  second poll returns the error -9.
\<close>

definition example_env :: "nat env" where
  "example_env =
     \<lparr>progname = ''profile'',
      getopt_long = [Opt_f (- 5)],
      parse_cpu_mask_file = (0, [True, False, True]),
      libbpf_num_possible_cpus = 4,
      profile_bpf_open_and_load = True,
      blaze_symbolizer_new = True,
      ring_buffer_new = True,
      perf_event_open = (\<lambda>a cpu. (int cpu + 3, 0)),
      bpf_program_attach_perf_event = (\<lambda>fd. Some (nat fd + 100)),
      ring_buffer_poll = [([kernel_only_event], 1), ([], - 9)],
      symbolize = example_symbolizer,
      symbolize_state = 0\<rparr>"



text \<open>
The traces of the first two runs.
\<close>

definition hw_attr :: perf_event_attr where
  "hw_attr =
     \<lparr>attr_type = PERF_TYPE_HARDWARE, attr_config = PERF_COUNT_HW_CPU_CYCLES,
      attr_sample_freq = 1, attr_freq = True\<rparr>"

definition example_env_trace :: "effect list" where
  "example_env_trace =
     [Perf_event_open hw_attr 0, Attach_perf_event 3,
      Perf_event_open hw_attr 2, Attach_perf_event 5] @
     kernel_only_output @
     [Bpf_link_destroy (Some 103), Bpf_link_destroy None,
      Bpf_link_destroy (Some 105), Bpf_link_destroy None,
      Close 3, Close 5,
      Ring_buffer_free True, Profile_bpf_destroy True, Blaze_symbolizer_free True]"


section \<open>Properties\<close>

subsection \<open>The loops of show\_stack\_trace\<close>

lemma print_inlined_drop:
  "print_inlined inls j =
     concat (map (\<lambda>inl. print_frame (inl_name inl) 0 0 0 (Some (inl_code_info inl))) (drop j inls))"
proof (induction inls j rule: print_inlined.induct)
  case (1 inls j)
  show ?case
  proof (cases "j < length inls")
    case True
    then have "drop j inls = inls ! j # drop (Suc j) inls"
      by (simp add: Cons_nth_drop_Suc)
    with True 1 show ?thesis
      by (subst print_inlined.simps) simp
  next
    case False
    then show ?thesis
      by (subst print_inlined.simps) simp
  qed
qed

lemma print_stack_blocks:
  "stack_sz \<le> length stack \<Longrightarrow>
   print_stack syms stack stack_sz i =
     Inr (concat (map (\<lambda>k. frame_block (stack ! k) (sym_result syms k)) [i..<stack_sz]))"
proof (induction syms stack stack_sz i rule: print_stack.induct)
  case (1 syms stack stack_sz i)
  show ?case
  proof (cases "i < stack_sz")
    case False
    then show ?thesis
      by (subst print_stack.simps) simp
  next
    case True
    then have upt: "[i..<stack_sz] = i # [Suc i..<stack_sz]"
      by (simp add: upt_conv_Cons)
    from True 1(4) have st: "stack_at stack i = Inr (stack ! i)"
      by (simp add: stack_at_def)
    show ?thesis
    proof (cases "length syms \<le> i")
      case short: True
      with True st 1(1) 1(4) show ?thesis
        by (subst print_stack.simps)
           (simp add: upt prepend_def frame_block_def sym_result_def)
    next
      case long: False
      then have sa: "syms_at syms i = Inr (syms ! i)"
        by (simp add: syms_at_def)
      show ?thesis
      proof (cases "name (syms ! i)")
        case None
        with True long st sa 1(2) 1(4) show ?thesis
          by (subst print_stack.simps)
             (simp add: upt prepend_def frame_block_def sym_result_def)
      next
        case (Some nm)
        with True long st sa 1(3) 1(4) show ?thesis
          by (subst print_stack.simps)
             (simp add: upt prepend_def frame_block_def sym_result_def print_inlined_drop)
      qed
    qed
  qed
qed

lemma show_stack_trace_blocks:
  assumes "sy st (if p \<noteq> 0 then Src_process p else Src_kernel) (take N stack) = (Inr syms, st')"
    and "N \<le> length stack"
  shows "show_stack_trace sy st stack N p =
           Inr (Blaze_symbolize (if p \<noteq> 0 then Src_process p else Src_kernel) (take N stack) #
                concat (map (\<lambda>k. frame_block (stack ! k) (sym_result syms k)) [0..<N]) @
                [Blaze_syms_free], st')"
  using assms by (simp add: show_stack_trace_def Let_def print_stack_blocks)

lemma print_frame_inlined:
  "print_frame (inl_name inl) 0 0 0 (Some (inl_code_info inl)) = spec_inlined_line inl"
  by (simp add: print_frame_def spec_inlined_line_def split: option.splits)

lemma print_frame_out_of_line:
  "a \<noteq> 0 \<Longrightarrow>
   print_frame (the (name s)) a (addr s) (offset s) (Some (sym_code_info s)) =
     spec_out_of_line_line a s"
  by (simp add: print_frame_def spec_out_of_line_line_def split: option.splits)

lemma frame_block_spec:
  "(r \<noteq> None \<longrightarrow> a \<noteq> 0) \<Longrightarrow> frame_block a r = spec_frame_lines a r"
  by (cases r) (simp_all add: frame_block_def spec_frame_lines_def print_frame_out_of_line
      print_frame_inlined)

lemma out_of_line_addrs_append [simp]:
  "out_of_line_addrs (xs @ ys) = out_of_line_addrs xs @ out_of_line_addrs ys"
  by (simp add: out_of_line_addrs_def)

lemma out_of_line_addrs_inlined: "out_of_line_addrs (spec_inlined_line inl) = []"
  by (simp add: out_of_line_addrs_def out_of_line_addr_def spec_inlined_line_def
      split: option.splits)

lemma out_of_line_addrs_inlineds:
  "out_of_line_addrs (concat (map spec_inlined_line inls)) = []"
  by (induction inls) (simp_all add: out_of_line_addrs_inlined, simp add: out_of_line_addrs_def)

lemma out_of_line_addrs_frame: "out_of_line_addrs (spec_frame_lines a r) = [a]"
proof (cases r)
  case None
  then show ?thesis
    by (simp add: spec_frame_lines_def out_of_line_addrs_def out_of_line_addr_def)
next
  case (Some s)
  have "out_of_line_addrs (spec_out_of_line_line a s) = [a]"
    by (simp add: out_of_line_addrs_def out_of_line_addr_def spec_out_of_line_line_def
        split: option.splits)
  with Some show ?thesis
    by (simp add: spec_frame_lines_def out_of_line_addrs_inlineds)
qed

lemma out_of_line_addrs_frames:
  "out_of_line_addrs (concat (map (\<lambda>k. spec_frame_lines (f k) (g k)) ks)) = map f ks"
  by (induction ks) (simp_all add: out_of_line_addrs_frame, simp add: out_of_line_addrs_def)

lemma map_nth_upt_take: "N \<le> length xs \<Longrightarrow> map (\<lambda>k. xs ! k) [0..<N] = take N xs"
  by (simp add: list_eq_iff_nth_eq)





lemma upt_3: "[0..<3] = [0, 1, 2]"
  by (simp add: upt_rec)

subsection \<open>Empty records\<close>

text \<open>
  C2. A record whose two stack sizes are both 0 or negative is skipped: the handler
  returns 1 at once, with no effect at all (nothing is printed and the symbolizer is not
  called, so its state is the one before). The sizes \<open>kstack_sz\<close> and \<open>ustack_sz\<close> are
  what the specification calls the frame counts of the record.
\<close>

theorem event_handler_skips_empty:
  "kstack_sz ev \<le> 0 \<Longrightarrow> ustack_sz ev \<le> 0 \<Longrightarrow> event_handler sy st ev = Inr (1, [], st)"
  by (simp add: event_handler_def)

theorem event_handler_skips_empty_witness:
  "kstack_sz empty_event \<le> 0 \<and> ustack_sz empty_event \<le> 0 \<and>
   event_handler example_symbolizer 0 empty_event = Inr (1, [], 0)"
  using event_handler_skips_empty [of empty_event example_symbolizer 0]
  by (simp add: empty_event_def)

subsection \<open>One line for each address\<close>

text \<open>
  C3, amended. When the call of the symbolizer succeeds for a stack of \<open>N\<close> addresses and
  no resolved address is 0, \<^verbatim>\<open>show_stack_trace\<close> prints, for the addresses in their
  order, the lines the specification asks: for an address without a symbol the raw
  address and the mark \<^verbatim>\<open><no-symbol>\<close>, for a resolved address the raw address, the name,
  the start address, the offset and the source location if it is known (followed by the
  lines of its inlined frames). Read back from the output, the lines that start with an
  address carry exactly the \<open>N\<close> input addresses, in the order of the input.
\<close>

theorem show_stack_trace_lines:
  assumes "sy st (if p \<noteq> 0 then Src_process p else Src_kernel) (take N stack) = (Inr syms, st')"
    and "N \<le> length stack"
    and "\<forall>i<N. sym_result syms i \<noteq> None \<longrightarrow> stack ! i \<noteq> 0"
  shows "\<exists>es. show_stack_trace sy st stack N p =
                Inr (Blaze_symbolize (if p \<noteq> 0 then Src_process p else Src_kernel) (take N stack) #
                     es @ [Blaze_syms_free], st') \<and>
              es = concat (map (\<lambda>i. spec_frame_lines (stack ! i) (sym_result syms i)) [0..<N]) \<and>
              out_of_line_addrs es = take N stack"
proof -
  have "map (\<lambda>k. frame_block (stack ! k) (sym_result syms k)) [0..<N] =
        map (\<lambda>k. spec_frame_lines (stack ! k) (sym_result syms k)) [0..<N]"
    using assms(3) by (simp add: frame_block_spec)
  with show_stack_trace_blocks [where sy = sy and st = st and p = p and N = N
      and stack = stack, OF assms(1,2)]
  show ?thesis
    using assms(2) by (simp add: out_of_line_addrs_frames map_nth_upt_take)
qed

text \<open>
  Three kernel addresses of which the second has no symbol: three lines that start with
  an address, the second with the mark \<^verbatim>\<open><no-symbol>\<close>.
\<close>

theorem show_stack_trace_lines_witness:
  "example_symbolizer 0 Src_kernel (take 3 example_stack) =
     (Inr (map example_resolve example_stack), 1) \<and>
   3 \<le> length example_stack \<and>
   example_stack ! 0 \<noteq> 0 \<and>
   sym_result (map example_resolve example_stack) 1 = None \<and>
   example_stack ! 2 \<noteq> 0 \<and>
   show_stack_trace example_symbolizer 0 example_stack 3 0 =
     Inr ([Blaze_symbolize Src_kernel example_stack,
           Printf ''%016lx: %s @ 0x%lx+0x%lx''
             [A_u64 0xffffffff81000010, A_str ''schedule'', A_u64 0xffffffff81000000, A_u64 0x10],
           Printf '' %s/%s:%u\<newline>'' [A_str ''kernel/sched'', A_str ''core.c'', A_uint 6500],
           Printf ''%16s  %s'' [A_str [], A_str ''context_switch''],
           Printf ''@ %s/%s:%u [inlined]\<newline>''
             [A_str ''kernel/sched'', A_str ''core.c'', A_uint 6500],
           Printf ''%16s  %s'' [A_str [], A_str ''finish_task_switch''],
           Printf ''[inlined]\<newline>'' [],
           Printf ''%016llx: <no-symbol>\<newline>'' [A_u64 0xffffffff81000100],
           Printf ''%016lx: %s @ 0x%lx+0x%lx''
             [A_u64 0xffffffff81000200, A_str ''do_idle'', A_u64 0xffffffff810001f0, A_u64 0x10],
           Printf ''\<newline>'' [],
           Blaze_syms_free], 1)"
proof -
  have h1: "example_symbolizer 0 (if (0::int) \<noteq> 0 then Src_process 0 else Src_kernel)
              (take 3 example_stack) = (Inr (map example_resolve example_stack), 1)"
    by (simp add: example_symbolizer_def example_stack_def)
  have h2: "3 \<le> length example_stack"
    by (simp add: example_stack_def)
  have h3: "\<forall>i<3. sym_result (map example_resolve example_stack) i \<noteq> None \<longrightarrow>
              example_stack ! i \<noteq> 0"
    by (simp add: example_stack_def nth_Cons' numeral_3_eq_3 less_Suc_eq)
  from show_stack_trace_lines [where sy = example_symbolizer and st = 0 and p = 0 and N = 3
      and stack = example_stack, OF h1 h2 h3]
  have "show_stack_trace example_symbolizer 0 example_stack 3 0 =
          Inr (Blaze_symbolize Src_kernel (take 3 example_stack) #
               concat (map (\<lambda>i. spec_frame_lines (example_stack ! i)
                                  (sym_result (map example_resolve example_stack) i)) [0..<3]) @
               [Blaze_syms_free], 1)"
    by auto
  then have "show_stack_trace example_symbolizer 0 example_stack 3 0 =
     Inr ([Blaze_symbolize Src_kernel example_stack,
           Printf ''%016lx: %s @ 0x%lx+0x%lx''
             [A_u64 0xffffffff81000010, A_str ''schedule'', A_u64 0xffffffff81000000, A_u64 0x10],
           Printf '' %s/%s:%u\<newline>'' [A_str ''kernel/sched'', A_str ''core.c'', A_uint 6500],
           Printf ''%16s  %s'' [A_str [], A_str ''context_switch''],
           Printf ''@ %s/%s:%u [inlined]\<newline>''
             [A_str ''kernel/sched'', A_str ''core.c'', A_uint 6500],
           Printf ''%16s  %s'' [A_str [], A_str ''finish_task_switch''],
           Printf ''[inlined]\<newline>'' [],
           Printf ''%016llx: <no-symbol>\<newline>'' [A_u64 0xffffffff81000100],
           Printf ''%016lx: %s @ 0x%lx+0x%lx''
             [A_u64 0xffffffff81000200, A_str ''do_idle'', A_u64 0xffffffff810001f0, A_u64 0x10],
           Printf ''\<newline>'' [],
           Blaze_syms_free], 1)"
    by (simp add: upt_3 example_stack_def sym_result_def example_resolve_def spec_frame_lines_def
        spec_out_of_line_line_def spec_inlined_line_def example_code_info_def no_code_info_def)
  moreover have "example_stack ! 0 \<noteq> 0 \<and>
      sym_result (map example_resolve example_stack) 1 = None \<and> example_stack ! 2 \<noteq> 0"
    by (simp add: example_stack_def sym_result_def example_resolve_def)
  ultimately show ?thesis
    using h1 h2 by simp
qed

text \<open>
  The claim as the specification states it fails for a resolved address that is 0:
  \<^verbatim>\<open>print_frame\<close> takes an input address of 0 as the sign of an inlined frame, so the line
  of that address has neither the raw address nor the start address and offset, and
  carries the mark \<^verbatim>\<open>[inlined]\<close>.
\<close>

theorem show_stack_trace_zero_address_counterexample:
  "zero_symbolizer 0 Src_kernel (take 1 [0]) = (Inr [start_sym], 1) \<and>
   sym_result [start_sym] 0 = Some start_sym \<and>
   show_stack_trace zero_symbolizer 0 [0] 1 0 =
     Inr ([Blaze_symbolize Src_kernel [0],
           Printf ''%16s  %s'' [A_str [], A_str ''start''],
           Printf ''[inlined]\<newline>'' [],
           Blaze_syms_free], 1) \<and>
   show_stack_trace zero_symbolizer 0 [0] 1 0 \<noteq>
     Inr (Blaze_symbolize Src_kernel [0] # spec_frame_lines 0 (Some start_sym) @ [Blaze_syms_free], 1) \<and>
   out_of_line_addrs
     [Printf ''%16s  %s'' [A_str [], A_str ''start''], Printf ''[inlined]\<newline>'' []] \<noteq> [0]"
  by (simp add: zero_symbolizer_def start_sym_def show_stack_trace_def print_stack.simps
      print_inlined.simps stack_at_def syms_at_def prepend_def print_frame_def no_code_info_def
      spec_frame_lines_def spec_out_of_line_line_def sym_result_def out_of_line_addrs_def
      out_of_line_addr_def)

subsection \<open>Inlined frames\<close>



subsection \<open>Fewer results than addresses\<close>



subsection \<open>The handler and the consumer loop\<close>

lemma symbolizer_calls_Nil [simp]: "symbolizer_calls [] = []"
  by (simp add: symbolizer_calls_def)

lemma symbolizer_calls_append [simp]:
  "symbolizer_calls (xs @ ys) = symbolizer_calls xs @ symbolizer_calls ys"
  by (simp add: symbolizer_calls_def)

lemma symbolizer_calls_Cons:
  "symbolizer_calls (Printf f a # es) = symbolizer_calls es"
  "symbolizer_calls (Blaze_symbolize s b # es) = (s, b) # symbolizer_calls es"
  "symbolizer_calls (Blaze_syms_free # es) = symbolizer_calls es"
  by (simp_all add: symbolizer_calls_def symbolizer_call_def)

lemma symbolizer_calls_print_frame: "symbolizer_calls (print_frame nm a b c ci) = []"
  by (simp add: print_frame_def symbolizer_calls_Cons split: option.splits)

lemma symbolizer_calls_concat:
  "(\<And>x. x \<in> set xs \<Longrightarrow> symbolizer_calls (f x) = []) \<Longrightarrow>
   symbolizer_calls (concat (map f xs)) = []"
  by (induction xs) simp_all

lemma symbolizer_calls_frame_block: "symbolizer_calls (frame_block a r) = []"
  by (cases r)
     (simp_all add: frame_block_def symbolizer_calls_print_frame symbolizer_calls_concat
        symbolizer_calls_Cons)

lemma show_stack_trace_failure:
  assumes "sy st (if p \<noteq> 0 then Src_process p else Src_kernel) (take N stack) = (Inl err, st')"
  shows "show_stack_trace sy st stack N p =
           Inr ([Blaze_symbolize (if p \<noteq> 0 then Src_process p else Src_kernel) (take N stack),
                 Printf ''  failed to symbolize addresses: %s\<newline>'' [A_str err]], st')"
  using assms by (simp add: show_stack_trace_def Let_def)

lemma show_stack_trace_shape:
  assumes "N \<le> length stack"
  shows "\<exists>out. show_stack_trace sy st stack N p =
           Inr (Blaze_symbolize (if p \<noteq> 0 then Src_process p else Src_kernel) (take N stack) # out,
                snd (sy st (if p \<noteq> 0 then Src_process p else Src_kernel) (take N stack))) \<and>
           symbolizer_calls out = []"
proof (cases "sy st (if p \<noteq> 0 then Src_process p else Src_kernel) (take N stack)")
  case (Pair r st')
  show ?thesis
  proof (cases r)
    case (Inl err)
    with Pair show_stack_trace_failure [where sy = sy and st = st and p = p and N = N
        and stack = stack and err = err and st' = st']
    show ?thesis
      by (simp add: symbolizer_calls_Cons)
  next
    case (Inr syms)
    with Pair show_stack_trace_blocks [where sy = sy and st = st and p = p and N = N
        and stack = stack and syms = syms and st' = st'] assms
    show ?thesis
      by (simp add: symbolizer_calls_concat symbolizer_calls_frame_block symbolizer_calls_Cons)
  qed
qed

lemma event_handler_shape:
  assumes "wf_event ev" and "\<not> (kstack_sz ev \<le> 0 \<and> ustack_sz ev \<le> 0)"
  shows "\<exists>kout uout st'.
           event_handler sy st ev =
             Inr (0,
                  Printf ''COMM: %s (pid=%d) @ CPU %d\<newline>''
                    [A_str (comm ev), A_int (pid ev), A_int (cpu_id ev)] #
                  (if 0 < kstack_sz ev then
                     Printf ''Kernel:\<newline>'' [] #
                     Blaze_symbolize Src_kernel (take (nat (kstack_sz ev div 8)) (kstack ev)) # kout
                   else [Printf ''No Kernel Stack\<newline>'' []]) @
                  (if 0 < ustack_sz ev then
                     Printf ''Userspace:\<newline>'' [] #
                     Blaze_symbolize (if pid ev \<noteq> 0 then Src_process (pid ev) else Src_kernel)
                       (take (nat (ustack_sz ev div 8)) (ustack ev)) # uout
                   else [Printf ''No Userspace Stack\<newline>'' []]) @
                  [Printf ''\<newline>'' []],
                  st') \<and>
           symbolizer_calls kout = [] \<and> symbolizer_calls uout = []"
proof -
  from assms(1) have k: "nat (kstack_sz ev div 8) \<le> length (kstack ev)"
    and u: "nat (ustack_sz ev div 8) \<le> length (ustack ev)"
    by (simp_all add: wf_event_def)
  obtain kout where kout:
    "show_stack_trace sy st (kstack ev) (nat (kstack_sz ev div 8)) 0 =
       Inr (Blaze_symbolize Src_kernel (take (nat (kstack_sz ev div 8)) (kstack ev)) # kout,
            snd (sy st Src_kernel (take (nat (kstack_sz ev div 8)) (kstack ev))))"
    "symbolizer_calls kout = []"
    using show_stack_trace_shape [OF k, of sy st 0] by auto
  define st1 where "st1 = (if 0 < kstack_sz ev
     then snd (sy st Src_kernel (take (nat (kstack_sz ev div 8)) (kstack ev))) else st)"
  obtain uout where uout:
    "show_stack_trace sy st1 (ustack ev) (nat (ustack_sz ev div 8)) (pid ev) =
       Inr (Blaze_symbolize (if pid ev \<noteq> 0 then Src_process (pid ev) else Src_kernel)
              (take (nat (ustack_sz ev div 8)) (ustack ev)) # uout,
            snd (sy st1 (if pid ev \<noteq> 0 then Src_process (pid ev) else Src_kernel)
                   (take (nat (ustack_sz ev div 8)) (ustack ev))))"
    "symbolizer_calls uout = []"
    using show_stack_trace_shape [OF u, of sy st1 "pid ev"] by auto
  show ?thesis
  proof (cases "0 < kstack_sz ev")
    case True
    with kout uout assms(2) show ?thesis
      by (cases "0 < ustack_sz ev") (auto simp: event_handler_def st1_def)
  next
    case False
    with kout uout assms(2) show ?thesis
      by (cases "0 < ustack_sz ev") (auto simp: event_handler_def st1_def)
  qed
qed

lemma event_handler_total:
  assumes "wf_event ev"
  shows "\<exists>r es st'. event_handler sy st ev = Inr (r, es, st') \<and> (r = 0 \<or> r = 1)"
proof (cases "kstack_sz ev \<le> 0 \<and> ustack_sz ev \<le> 0")
  case True
  then show ?thesis
    by (simp add: event_handler_def)
next
  case False
  from event_handler_shape [OF assms False, of sy st] show ?thesis
    by auto
qed

lemma ring_buffer_consume_all:
  "list_all wf_event evs \<Longrightarrow>
   \<exists>es st1. handle_all sy st evs = Inr (es, st1) \<and>
            ring_buffer_consume sy st evs = Inr (None, es, st1)"
proof (induction evs arbitrary: st)
  case Nil
  then show ?case by simp
next
  case (Cons ev evs)
  then have "wf_event ev" and rest: "list_all wf_event evs"
    by simp_all
  then obtain r es st' where h: "event_handler sy st ev = Inr (r, es, st')" "r = 0 \<or> r = 1"
    using event_handler_total [of ev sy st] by auto
  from Cons.IH [OF rest, of st'] obtain es2 st2 where
    "handle_all sy st' evs = Inr (es2, st2)" "ring_buffer_consume sy st' evs = Inr (None, es2, st2)"
    by auto
  with h show ?case
    by auto
qed

lemmas eval_handler =
  event_handler_def show_stack_trace_def print_stack.simps print_inlined.simps stack_at_def
  syms_at_def prepend_def print_frame_def

lemmas eval_examples =
  example_symbolizer_def zero_symbolizer_def start_sym_def example_resolve_def
  example_code_info_def no_code_info_def example_stack_def kernel_only_event_def
  user_event_def



lemma user_event_failed_run:
  "event_handler example_symbolizer 0 user_event = Inr (0, user_event_failed_output, 2)"
  by (simp add: eval_handler eval_examples user_event_failed_output_def)

lemma kernel_only_event_second_run:
  "event_handler example_symbolizer 2 kernel_only_event = Inr (0, kernel_only_output, 3)"
  by (simp add: eval_handler eval_examples kernel_only_output_def)

text \<open>
  C5. When the whole call of the symbolizer fails for a stack, \<^verbatim>\<open>show_stack_trace\<close> prints
  the diagnostic with the text of the error, prints no frame, and returns. The
  pipeline goes on: whatever the symbolizer answers, the handler never returns a negative
  number for a record within its invariant, so the ring buffer hands every record of the
  poll to the handler, and the wait loop goes to the next poll unless the poll itself
  returned a negative number.
\<close>

theorem symbolize_failure_not_fatal:
  assumes "sy st (if p \<noteq> 0 then Src_process p else Src_kernel) (take N stack) = (Inl err, st')"
    and "list_all wf_event evs"
  shows "show_stack_trace sy st stack N p =
           Inr ([Blaze_symbolize (if p \<noteq> 0 then Src_process p else Src_kernel) (take N stack),
                 Printf ''  failed to symbolize addresses: %s\<newline>'' [A_str err]], st') \<and>
         (\<exists>es st1. handle_all sy st0 evs = Inr (es, st1) \<and>
                   ring_buffer_consume sy st0 evs = Inr (None, es, st1) \<and>
                   wait_loop sy st0 ((evs, ret) # polls) =
                     (if 0 \<le> ret then
                        (case wait_loop sy st1 polls of
                           Inl f \<Rightarrow> Inl f
                         | Inr (b, es2, st2) \<Rightarrow> Inr (b, es @ es2, st2))
                      else Inr (True, es, st1)))"
proof -
  from ring_buffer_consume_all [OF assms(2), of sy st0] obtain es st1 where
    "handle_all sy st0 evs = Inr (es, st1)" "ring_buffer_consume sy st0 evs = Inr (None, es, st1)"
    by auto
  then show ?thesis
    using show_stack_trace_failure [where sy = sy and st = st and p = p and N = N
        and stack = stack, OF assms(1)]
    by simp
qed

text \<open>
  Two records in one poll. The call for the process of the first record fails; the
  diagnostic is printed in its place and the second record is printed after it.
\<close>

theorem symbolize_failure_not_fatal_witness:
  "example_symbolizer 1 (Src_process 1234) (take 2 (ustack user_event)) =
     (Inl ''No such process'', 2) \<and>
   list_all wf_event [user_event, kernel_only_event] \<and>
   show_stack_trace example_symbolizer 1 (ustack user_event) 2 1234 =
     Inr ([Blaze_symbolize (Src_process 1234) [0x401000, 0x401234],
           Printf ''  failed to symbolize addresses: %s\<newline>'' [A_str ''No such process'']], 2) \<and>
   ring_buffer_consume example_symbolizer 0 [user_event, kernel_only_event] =
     Inr (None, user_event_failed_output @ kernel_only_output, 3) \<and>
   wait_loop example_symbolizer 0 [([user_event, kernel_only_event], 2)] =
     Inr (False, user_event_failed_output @ kernel_only_output, 3)"
proof -
  have h1: "example_symbolizer 1 (if (1234::int) \<noteq> 0 then Src_process 1234 else Src_kernel)
              (take 2 (ustack user_event)) = (Inl ''No such process'', 2)"
    by (simp add: example_symbolizer_def)
  have h2: "list_all wf_event [user_event, kernel_only_event]"
    by (simp add: wf_event_def eval_examples)
  have run: "handle_all example_symbolizer 0 [user_event, kernel_only_event] =
      Inr (user_event_failed_output @ kernel_only_output, 3)"
    by (simp add: user_event_failed_run kernel_only_event_second_run)
  note t = symbolize_failure_not_fatal [where sy = example_symbolizer and st = 1 and p = 1234
      and N = 2 and stack = "ustack user_event" and ?st0.0 = 0 and ret = 2 and polls = "[]",
      OF h1 h2]
  from t have d: "show_stack_trace example_symbolizer 1 (ustack user_event) 2 1234 =
     Inr ([Blaze_symbolize (Src_process 1234) (take 2 (ustack user_event)),
           Printf ''  failed to symbolize addresses: %s\<newline>'' [A_str ''No such process'']], 2)"
    by simp
  from t obtain es st1 where
    a: "handle_all example_symbolizer 0 [user_event, kernel_only_event] = Inr (es, st1)" and
    b: "ring_buffer_consume example_symbolizer 0 [user_event, kernel_only_event] =
          Inr (None, es, st1)" and
    c: "wait_loop example_symbolizer 0 [([user_event, kernel_only_event], 2)] =
          (if (0::int) \<le> 2 then
             (case wait_loop example_symbolizer st1 [] of
                Inl f \<Rightarrow> Inl f
              | Inr (b, es2, st2) \<Rightarrow> Inr (b, es @ es2, st2))
           else Inr (True, es, st1))"
    by blast
  from a run have "es = user_event_failed_output @ kernel_only_output" and "st1 = 3"
    by simp_all
  with b c d h1 h2 show ?thesis
    by (simp add: user_event_def)
qed

subsection \<open>The calls of the symbolizer for one record\<close>




subsection \<open>The option loop\<close>

lemma parse_args_help: "help_requested opts \<Longrightarrow> parse_args opts fr sw = Inl ()"
proof (induction opts arbitrary: fr sw)
  case Nil
  then show ?case by (simp add: help_requested_def)
next
  case (Cons x opts)
  then show ?case by (cases x) (simp_all add: help_requested_def)
qed

lemma parse_args_values:
  "\<not> help_requested opts \<Longrightarrow>
   parse_args opts fr sw =
     Inr (case last_f opts of None \<Rightarrow> fr | Some v \<Rightarrow> if v \<le> 0 then 1 else v,
          sw \<or> sw_event_mode opts)"
proof (induction opts arbitrary: fr sw)
  case Nil
  then show ?case by (simp add: sw_event_mode_def)
next
  case (Cons x opts)
  then show ?case
    by (cases x) (auto simp: help_requested_def sw_event_mode_def split: option.splits)
qed

lemma parse_args_spec:
  "\<not> help_requested opts \<Longrightarrow>
   parse_args opts 1 False = Inr (spec_frequency opts, sw_event_mode opts)"
  by (simp add: parse_args_values spec_frequency_def)

subsection \<open>The loop over the CPUs\<close>

lemma open_counters_ok:
  assumes "\<forall>k. c \<le> k \<and> k < n \<and> k < length om \<and> om ! k \<longrightarrow>
             0 \<le> fst (perf_event_open env attr k) \<and>
             bpf_program_attach_perf_event env (fst (perf_event_open env attr k)) \<noteq> None"
  shows "\<exists>pefds' links'.
           open_counters env attr sw n om c pefds links =
             (0, pefds', links',
              concat (map (\<lambda>k. [Perf_event_open attr k,
                                 Attach_perf_event (fst (perf_event_open env attr k))])
                        (filter (\<lambda>k. k < length om \<and> om ! k) [c..<n])))"
  using assms
proof (induction env attr sw n om c pefds links rule: open_counters.induct)
  case (1 env attr sw n om c pefds links)
  show ?case
  proof (cases "c < n")
    case False
    then show ?thesis
      by (subst open_counters.simps) simp
  next
    case True
    then have upt: "[c..<n] = c # [Suc c..<n]"
      by (simp add: upt_conv_Cons)
    have rest: "\<forall>k. Suc c \<le> k \<and> k < n \<and> k < length om \<and> om ! k \<longrightarrow>
             0 \<le> fst (perf_event_open env attr k) \<and>
             bpf_program_attach_perf_event env (fst (perf_event_open env attr k)) \<noteq> None"
      using 1(3) by auto
    show ?thesis
    proof (cases "length om \<le> c \<or> \<not> om ! c")
      case skip: True
      from 1(1) [OF True skip rest] obtain pefds' links' where
        "open_counters env attr sw n om (Suc c) pefds links =
           (0, pefds', links',
            concat (map (\<lambda>k. [Perf_event_open attr k,
                               Attach_perf_event (fst (perf_event_open env attr k))])
                      (filter (\<lambda>k. k < length om \<and> om ! k) [Suc c..<n])))"
        by blast
      with True skip show ?thesis
        by (subst open_counters.simps) (auto simp: upt)
    next
      case online: False
      obtain pefd errno where pe: "perf_event_open env attr c = (pefd, errno)"
        by (cases "perf_event_open env attr c")
      from 1(3) True online pe have ok: "\<not> pefd < 0"
        and "bpf_program_attach_perf_event env pefd \<noteq> None"
        by (auto dest: spec [of _ c])
      then obtain l where l: "bpf_program_attach_perf_event env pefd = Some l"
        by auto
      from 1(2) [OF True online pe [symmetric] ok l rest] obtain pefds' links' where
        "open_counters env attr sw n om (Suc c) (pefds[c := pefd]) (links[c := Some l]) =
           (0, pefds', links',
            concat (map (\<lambda>k. [Perf_event_open attr k,
                               Attach_perf_event (fst (perf_event_open env attr k))])
                      (filter (\<lambda>k. k < length om \<and> om ! k) [Suc c..<n])))"
        by blast
      with True online pe ok l show ?thesis
        by (subst open_counters.simps) (auto simp: upt)
    qed
  qed
qed


lemma open_counters_arrays:
  assumes "open_counters env attr sw n om c pefds links = (err, pefds', links', es)"
    and "n \<le> length pefds" and "n \<le> length links"
  shows "length pefds' = length pefds \<and> length links' = length links \<and>
         (\<forall>k<c. pefds' ! k = pefds ! k \<and> links' ! k = links ! k) \<and>
         (\<forall>a k. Perf_event_open a k \<in> set es \<longrightarrow>
            a = attr \<and> k < n \<and>
            (0 \<le> fst (perf_event_open env attr k) \<longrightarrow> pefds' ! k = fst (perf_event_open env attr k))) \<and>
         (\<forall>fd. Attach_perf_event fd \<in> set es \<longrightarrow>
            (\<exists>k<n. links' ! k = bpf_program_attach_perf_event env fd)) \<and>
         (\<forall>e \<in> set es. \<not> record_effect e)"
  using assms
proof (induction env attr sw n om c pefds links arbitrary: err pefds' links' es
    rule: open_counters.induct)
  case (1 env attr sw n om c pefds links)
  show ?case
  proof (cases "c < n")
    case False
    with 1(3) show ?thesis
      by (subst (asm) open_counters.simps) auto
  next
    case True
    show ?thesis
    proof (cases "length om \<le> c \<or> \<not> om ! c")
      case skip: True
      with True 1(3) have
        "open_counters env attr sw n om (Suc c) pefds links = (err, pefds', links', es)"
        by (subst (asm) open_counters.simps) simp
      from 1(1) [OF True skip this 1(4,5)] show ?thesis
        by auto
    next
      case online: False
      obtain pefd errno where pe: "perf_event_open env attr c = (pefd, errno)"
        by (cases "perf_event_open env attr c")
      show ?thesis
      proof (cases "pefd < 0")
        case neg: True
        with True online pe 1(3) show ?thesis
          by (subst (asm) open_counters.simps) (auto simp: record_effect_def split: if_splits)
      next
        case nonneg: False
        show ?thesis
        proof (cases "bpf_program_attach_perf_event env pefd")
          case None
          with True online pe nonneg 1(3) have
            r: "pefds' = pefds[c := pefd]" "links' = links[c := None]"
               "es = [Perf_event_open attr c, Attach_perf_event pefd]"
            by (subst (asm) open_counters.simps, simp)+
          from True 1(4,5) have "c < length pefds" "c < length links"
            by simp_all
          with r None pe True show ?thesis
            by (auto simp: record_effect_def)
        next
          case (Some l)
          obtain es2 where
            rc: "open_counters env attr sw n om (Suc c) (pefds[c := pefd]) (links[c := Some l]) =
                   (err, pefds', links', es2)"
            and es: "es = Perf_event_open attr c # Attach_perf_event pefd # es2"
            using True online pe nonneg Some 1(3)
            by (subst (asm) open_counters.simps) (auto split: prod.splits)
          from True 1(4,5) have len: "c < length pefds" "c < length links"
            by simp_all
          from 1(2) [OF True online pe [symmetric] nonneg Some rc] 1(4,5)
          have ih: "length pefds' = length pefds" "length links' = length links"
            "\<forall>k<Suc c. pefds' ! k = (pefds[c := pefd]) ! k \<and> links' ! k = (links[c := Some l]) ! k"
            "\<forall>a k. Perf_event_open a k \<in> set es2 \<longrightarrow>
               a = attr \<and> k < n \<and>
               (0 \<le> fst (perf_event_open env attr k) \<longrightarrow>
                pefds' ! k = fst (perf_event_open env attr k))"
            "\<forall>fd. Attach_perf_event fd \<in> set es2 \<longrightarrow>
               (\<exists>k<n. links' ! k = bpf_program_attach_perf_event env fd)"
            "\<forall>e \<in> set es2. \<not> record_effect e"
            by simp_all
          from ih(3) len have c: "pefds' ! c = pefd" "links' ! c = Some l"
            by simp_all
          from ih(3) have frame: "\<forall>k<c. pefds' ! k = pefds ! k \<and> links' ! k = links ! k"
            by simp
          from ih(1,2) frame ih(4,5,6) c pe Some True show ?thesis
            unfolding es by (auto simp: record_effect_def)
        qed
      qed
    qed
  qed
qed

subsection \<open>The effects of the wait loop\<close>

lemma record_effect_print_frame: "list_all record_effect (print_frame nm a b c ci)"
  by (simp add: print_frame_def record_effect_def split: option.splits)

lemma record_effect_print_inlined: "list_all record_effect (print_inlined inls j)"
  by (simp add: print_inlined_drop list_all_iff)
     (auto simp: record_effect_print_frame [unfolded list_all_iff])

lemma record_effect_print_stack:
  "print_stack syms stack N i = Inr es \<Longrightarrow> list_all record_effect es"
proof (induction syms stack N i arbitrary: es rule: print_stack.induct)
  case (1 syms stack N i)
  show ?case
  proof (cases "i < N")
    case False
    with 1(4) show ?thesis
      by (subst (asm) print_stack.simps) simp
  next
    case True
    show ?thesis
    proof (cases "length syms \<le> i")
      case short: True
      with True 1(4) obtain a es2 where
        "stack_at stack i = Inr a" "print_stack syms stack N (Suc i) = Inr es2"
        "es = Printf ''%016llx: <no-symbol>\<newline>'' [A_u64 a] # es2"
        by (subst (asm) print_stack.simps)
           (auto simp: prepend_def split: sum.splits)
      with 1(1) [OF True short] show ?thesis
        by (simp add: record_effect_def)
    next
      case long: False
      with True 1(4) obtain sm a where
        sa: "syms_at syms i = Inr sm" and st: "stack_at stack i = Inr a"
        by (subst (asm) print_stack.simps) (auto split: sum.splits)
      show ?thesis
      proof (cases "name sm")
        case None
        with True long sa st 1(4) obtain es2 where
          "print_stack syms stack N (Suc i) = Inr es2"
          "es = Printf ''%016llx: <no-symbol>\<newline>'' [A_u64 a] # es2"
          by (subst (asm) print_stack.simps)
             (auto simp: prepend_def split: sum.splits)
        with 1(2) [OF True long sa st None] show ?thesis
          by (simp add: record_effect_def)
      next
        case (Some nm)
        with True long sa st 1(4) obtain es2 where
          "print_stack syms stack N (Suc i) = Inr es2"
          "es = (print_frame nm a (addr sm) (offset sm) (Some (sym_code_info sm)) @
                 print_inlined (inlined sm) 0) @ es2"
          by (subst (asm) print_stack.simps)
             (auto simp: prepend_def split: sum.splits)
        with 1(3) [OF True long sa st Some] show ?thesis
          by (simp add: record_effect_print_frame record_effect_print_inlined)
      qed
    qed
  qed
qed

lemma record_effect_show_stack_trace:
  "show_stack_trace sy st stack N p = Inr (es, st') \<Longrightarrow> list_all record_effect es"
  by (auto simp: show_stack_trace_def Let_def record_effect_def
      split: prod.splits sum.splits dest: record_effect_print_stack)

lemma record_effect_event_handler:
  "event_handler sy st ev = Inr (r, es, st') \<Longrightarrow> list_all record_effect es"
  by (auto simp: event_handler_def record_effect_def
      split: if_splits prod.splits sum.splits dest: record_effect_show_stack_trace)

lemma record_effect_consume:
  "ring_buffer_consume sy st evs = Inr (a, es, st') \<Longrightarrow> list_all record_effect es"
proof (induction evs arbitrary: st a es st')
  case Nil
  then show ?case by simp
next
  case (Cons ev evs)
  then show ?case
    by (auto split: sum.splits prod.splits if_splits dest: record_effect_event_handler)
qed

lemma record_effect_wait_loop:
  "wait_loop sy st polls = Inr (b, es, st') \<Longrightarrow> list_all record_effect es"
proof (induction polls arbitrary: st b es st')
  case Nil
  then show ?case by simp
next
  case (Cons p polls)
  then show ?case
    by (cases p) (auto split: sum.splits prod.splits if_splits dest: record_effect_consume)
qed


subsection \<open>The runs of main\<close>

lemma main_counters:
  assumes "setup_reaches_counters env"
  shows "main env =
     (case open_counters env (spec_attr (getopt_long env)) (sw_event_mode (getopt_long env))
             (nat (libbpf_num_possible_cpus env)) (snd (parse_cpu_mask_file env)) 0
             (replicate (nat (libbpf_num_possible_cpus env)) (- 1))
             (replicate (nat (libbpf_num_possible_cpus env)) None) of
        (err, pefds, links, es) \<Rightarrow>
          if err \<noteq> 0 then goto_cleanup err es (Some links) (Some pefds) True True True
          else
            (case wait_loop (symbolize env) (symbolize_state env) (ring_buffer_poll env) of
               Inl f \<Rightarrow> \<lparr>outcome = Crashed f, trace = es\<rparr>
             | Inr (ended, wes, st) \<Rightarrow>
                 if ended then
                   goto_cleanup err (es @ wes) (Some links) (Some pefds) True True True
                 else \<lparr>outcome = Waiting, trace = es @ wes\<rparr>))"
proof -
  obtain err om where m: "parse_cpu_mask_file env = (err, om)"
    by (cases "parse_cpu_mask_file env")
  with assms have "err = 0"
    by (simp add: setup_reaches_counters_def)
  with assms m show ?thesis
    by (simp add: main_def setup_reaches_counters_def parse_args_spec Let_def spec_attr_def)
qed

lemma filter_online:
  "filter (unit_online env) [0..<nat (libbpf_num_possible_cpus env)] =
   filter (\<lambda>k. k < length (snd (parse_cpu_mask_file env)) \<and> snd (parse_cpu_mask_file env) ! k)
     [0..<nat (libbpf_num_possible_cpus env)]"
  by (rule filter_cong) (auto simp: unit_online_def)

lemma main_startup_ok:
  assumes "startup_ok env"
  shows "\<exists>pefds links.
     open_counters env (spec_attr (getopt_long env)) (sw_event_mode (getopt_long env))
       (nat (libbpf_num_possible_cpus env)) (snd (parse_cpu_mask_file env)) 0
       (replicate (nat (libbpf_num_possible_cpus env)) (- 1))
       (replicate (nat (libbpf_num_possible_cpus env)) None) =
         (0, pefds, links, setup_effects env) \<and>
     main env =
       (case wait_loop (symbolize env) (symbolize_state env) (ring_buffer_poll env) of
          Inl f \<Rightarrow> \<lparr>outcome = Crashed f, trace = setup_effects env\<rparr>
        | Inr (ended, wes, st) \<Rightarrow>
            if ended then
              goto_cleanup 0 (setup_effects env @ wes) (Some links) (Some pefds) True True True
            else \<lparr>outcome = Waiting, trace = setup_effects env @ wes\<rparr>)"
proof -
  from assms have reach: "setup_reaches_counters env"
    and ok: "\<forall>k. 0 \<le> k \<and> k < nat (libbpf_num_possible_cpus env) \<and>
               k < length (snd (parse_cpu_mask_file env)) \<and> snd (parse_cpu_mask_file env) ! k \<longrightarrow>
               0 \<le> fst (perf_event_open env (spec_attr (getopt_long env)) k) \<and>
               bpf_program_attach_perf_event env
                 (fst (perf_event_open env (spec_attr (getopt_long env)) k)) \<noteq> None"
    by (auto simp: startup_ok_def list_all_iff unit_fails_def unit_online_def)
  from open_counters_ok [OF ok, of "sw_event_mode (getopt_long env)"
      "replicate (nat (libbpf_num_possible_cpus env)) (- 1)"
      "replicate (nat (libbpf_num_possible_cpus env)) None"]
  obtain pefds links where
    oc: "open_counters env (spec_attr (getopt_long env)) (sw_event_mode (getopt_long env))
       (nat (libbpf_num_possible_cpus env)) (snd (parse_cpu_mask_file env)) 0
       (replicate (nat (libbpf_num_possible_cpus env)) (- 1))
       (replicate (nat (libbpf_num_possible_cpus env)) None) =
         (0, pefds, links, setup_effects env)"
    unfolding setup_effects_def filter_online by blast
  show ?thesis
    apply (rule exI [of _ pefds])
    apply (rule exI [of _ links])
    using oc main_counters [OF reach] by simp
qed



lemma counter_effects_append [simp]:
  "counter_effects (xs @ ys) = counter_effects xs @ counter_effects ys"
  by (simp add: counter_effects_def)

lemma counter_effects_record: "list_all record_effect es \<Longrightarrow> counter_effects es = []"
  by (induction es)
     (auto simp: counter_effects_def record_effect_def is_counter_effect_def split: effect.splits)

lemma cleanup_no_counter: "x \<in> set (cleanup links pefds rb sk sy) \<Longrightarrow> \<not> is_counter_effect x"
  by (auto simp: cleanup_def is_counter_effect_def split: option.splits)

lemma counter_effects_cleanup: "counter_effects (cleanup links pefds rb sk sy) = []"
  by (auto simp: counter_effects_def filter_empty_conv dest: cleanup_no_counter)

lemma counter_effects_stderr:
  "counter_effects (Fprintf_stderr f a # es) = counter_effects es"
  by (simp add: counter_effects_def is_counter_effect_def)

lemma counter_effects_pairs:
  "counter_effects (concat (map (\<lambda>k. [Perf_event_open a k, Attach_perf_event (f k)]) ks)) =
     concat (map (\<lambda>k. [Perf_event_open a k, Attach_perf_event (f k)]) ks)"
  by (induction ks) (simp_all add: counter_effects_def is_counter_effect_def)

lemma opens_of_counter_effects: "opens_of cpu (counter_effects es) = opens_of cpu es"
proof -
  have "filter (\<lambda>e. case e of Perf_event_open a k \<Rightarrow> k = cpu | _ \<Rightarrow> False)
          (filter is_counter_effect es) =
        filter (\<lambda>e. case e of Perf_event_open a k \<Rightarrow> k = cpu | _ \<Rightarrow> False) es"
    by (induction es) (auto simp: is_counter_effect_def split: effect.splits)
  then show ?thesis
    by (simp add: opens_of_def counter_effects_def)
qed

lemma attaches_counter_effects: "attaches (counter_effects es) = attaches es"
proof -
  have "filter (\<lambda>e. case e of Attach_perf_event fd \<Rightarrow> True | _ \<Rightarrow> False)
          (filter is_counter_effect es) =
        filter (\<lambda>e. case e of Attach_perf_event fd \<Rightarrow> True | _ \<Rightarrow> False) es"
    by (induction es) (auto simp: is_counter_effect_def split: effect.splits)
  then show ?thesis
    by (simp add: attaches_def counter_effects_def)
qed

lemma opens_of_pairs:
  "opens_of cpu (concat (map (\<lambda>k. [Perf_event_open a k, Attach_perf_event (f k)]) ks)) =
     count_list ks cpu"
  by (induction ks) (auto simp: opens_of_def)

lemma attaches_pairs:
  "attaches (concat (map (\<lambda>k. [Perf_event_open a k, Attach_perf_event (f k)]) ks)) = length ks"
  by (induction ks) (auto simp: attaches_def)

lemma count_list_filter_upt:
  "count_list (filter P [0..<n]) k = (if k < n \<and> P k then 1 else 0)"
  by (induction n) auto

lemma opens_of_setup_effects:
  "opens_of cpu (setup_effects env) = (if unit_online env cpu then 1 else 0)"
  by (auto simp: setup_effects_def opens_of_pairs count_list_filter_upt unit_online_def)

lemma counter_effects_main_ok:
  assumes "startup_ok env"
  shows "counter_effects (trace (main env)) = setup_effects env"
proof -
  from main_startup_ok [OF assms] obtain pefds links where
    m: "main env =
       (case wait_loop (symbolize env) (symbolize_state env) (ring_buffer_poll env) of
          Inl f \<Rightarrow> \<lparr>outcome = Crashed f, trace = setup_effects env\<rparr>
        | Inr (ended, wes, st) \<Rightarrow>
            if ended then
              goto_cleanup 0 (setup_effects env @ wes) (Some links) (Some pefds) True True True
            else \<lparr>outcome = Waiting, trace = setup_effects env @ wes\<rparr>)"
    by blast
  have s: "counter_effects (setup_effects env) = setup_effects env"
    by (simp add: setup_effects_def counter_effects_pairs)
  show ?thesis
  proof (cases "wait_loop (symbolize env) (symbolize_state env) (ring_buffer_poll env)")
    case (Inl f)
    with m s show ?thesis
      by simp
  next
    case (Inr r)
    obtain ended wes st where r: "r = (ended, wes, st)"
      by (cases r)
    with Inr have "counter_effects wes = []"
      by (auto dest: record_effect_wait_loop counter_effects_record)
    with m s Inr r show ?thesis
      by (simp add: goto_cleanup_def counter_effects_cleanup)
  qed
qed

lemma main_early_trace:
  assumes "\<not> setup_reaches_counters env"
  shows "outcome (main env) =
           (if help_requested (getopt_long env) then Exit 1
            else if fst (parse_cpu_mask_file env) \<noteq> 0 then Exit (- fst (parse_cpu_mask_file env))
            else Exit 1) \<and>
         counter_effects (trace (main env)) = []"
proof (cases "help_requested (getopt_long env)")
  case True
  then show ?thesis
    by (simp add: main_def parse_args_help show_help_def counter_effects_def is_counter_effect_def)
next
  case False
  obtain err om where m: "parse_cpu_mask_file env = (err, om)"
    by (cases "parse_cpu_mask_file env")
  with False assms show ?thesis
    by (auto simp: main_def parse_args_spec goto_cleanup_def setup_reaches_counters_def
        counter_effects_cleanup counter_effects_stderr)
qed

lemma main_opens_attr:
  assumes "Perf_event_open a cpu \<in> set (trace (main env))"
  shows "a = spec_attr (getopt_long env)"
proof -
  from assms have in_c: "Perf_event_open a cpu \<in> set (counter_effects (trace (main env)))"
    by (simp add: counter_effects_def is_counter_effect_def)
  show ?thesis
  proof (cases "setup_reaches_counters env")
    case False
    with main_early_trace [OF False] in_c show ?thesis
      by simp
  next
    case True
    obtain err pefds links es where
      oc: "open_counters env (spec_attr (getopt_long env)) (sw_event_mode (getopt_long env))
         (nat (libbpf_num_possible_cpus env)) (snd (parse_cpu_mask_file env)) 0
         (replicate (nat (libbpf_num_possible_cpus env)) (- 1))
         (replicate (nat (libbpf_num_possible_cpus env)) None) = (err, pefds, links, es)"
      by (cases "open_counters env (spec_attr (getopt_long env)) (sw_event_mode (getopt_long env))
         (nat (libbpf_num_possible_cpus env)) (snd (parse_cpu_mask_file env)) 0
         (replicate (nat (libbpf_num_possible_cpus env)) (- 1))
         (replicate (nat (libbpf_num_possible_cpus env)) None)")
    from open_counters_arrays [OF oc] have
      attr: "\<forall>a k. Perf_event_open a k \<in> set es \<longrightarrow> a = spec_attr (getopt_long env)"
      by simp
    have "set (counter_effects (trace (main env))) \<subseteq> set es"
    proof (cases "err \<noteq> 0")
      case True
      with main_counters [OF \<open>setup_reaches_counters env\<close>] oc show ?thesis
        by (auto simp: goto_cleanup_def counter_effects_def dest: cleanup_no_counter)
    next
      case False
      show ?thesis
      proof (cases "wait_loop (symbolize env) (symbolize_state env) (ring_buffer_poll env)")
        case (Inl f)
        with False main_counters [OF \<open>setup_reaches_counters env\<close>] oc show ?thesis
          by (auto simp: counter_effects_def)
      next
        case (Inr r)
        obtain ended wes st where r: "r = (ended, wes, st)"
          by (cases r)
        with Inr have "counter_effects wes = []"
          by (auto dest: record_effect_wait_loop counter_effects_record)
        moreover have "set (counter_effects es) \<subseteq> set es"
          by (auto simp: counter_effects_def)
        ultimately show ?thesis
          using False Inr r main_counters [OF \<open>setup_reaches_counters env\<close>] oc
          by (auto simp: goto_cleanup_def counter_effects_cleanup)
      qed
    qed
    with in_c attr show ?thesis
      by blast
  qed
qed





lemma example_env_run: "main example_env = \<lparr>outcome = Exit 0, trace = example_env_trace\<rparr>"
  by code_simp


lemma upt_4: "[0..<4] = [0, 1, 2, 3]"
  by (simp add: upt_rec)

lemma example_env_online:
  "filter (unit_online example_env) [0..<nat (libbpf_num_possible_cpus example_env)] = [0, 2]"
  by (simp add: example_env_def unit_online_def upt_4)

lemma example_env_ok: "startup_ok example_env"
  by (simp add: startup_ok_def setup_reaches_counters_def help_requested_def unit_fails_def
      unit_online_def example_env_def upt_4)


subsection \<open>One counter and one attachment for each online unit\<close>

text \<open>
  C7. After a successful startup the effects that create counters and attach the
  program are, in the order of the units, one \<^verbatim>\<open>perf_event_open\<close> for each online unit
  followed by one attachment of the program to the counter just created, and nothing
  else, whatever the wait loop does afterwards. So for every index the number of
  counters created for it is 1 if the unit is online and 0 if it is offline or absent,
  the number of attachments is the number of online units, and the attributes of every
  counter have the flag \<^verbatim>\<open>freq\<close> set (sampling by frequency, not by count).
\<close>

theorem one_counter_per_online_unit:
  assumes "startup_ok env"
  shows "counter_effects (trace (main env)) =
           concat (map (\<lambda>cpu. [Perf_event_open (spec_attr (getopt_long env)) cpu,
                               Attach_perf_event
                                 (fst (perf_event_open env (spec_attr (getopt_long env)) cpu))])
                     (filter (unit_online env) [0..<nat (libbpf_num_possible_cpus env)])) \<and>
         (\<forall>cpu. opens_of cpu (trace (main env)) = (if unit_online env cpu then 1 else 0)) \<and>
         attaches (trace (main env)) =
           length (filter (unit_online env) [0..<nat (libbpf_num_possible_cpus env)]) \<and>
         attr_freq (spec_attr (getopt_long env))"
proof -
  note c = counter_effects_main_ok [OF assms]
  have "\<And>cpu. opens_of cpu (trace (main env)) = (if unit_online env cpu then 1 else 0)"
    using opens_of_counter_effects [of _ "trace (main env)"] c opens_of_setup_effects [of _ env]
    by simp
  moreover have "attaches (trace (main env)) =
      length (filter (unit_online env) [0..<nat (libbpf_num_possible_cpus env)])"
    using attaches_counter_effects [of "trace (main env)"] c
    by (simp add: setup_effects_def attaches_pairs)
  ultimately show ?thesis
    using c by (simp add: setup_effects_def spec_attr_def)
qed

text \<open>
  Four possible CPUs, CPU 0 and CPU 2 online: a counter and an attachment for each of the
  two, none for CPU 1 and CPU 3.
\<close>

theorem one_counter_per_online_unit_witness:
  "startup_ok example_env \<and>
   counter_effects (trace (main example_env)) =
     [Perf_event_open hw_attr 0, Attach_perf_event 3,
      Perf_event_open hw_attr 2, Attach_perf_event 5] \<and>
   opens_of 0 (trace (main example_env)) = 1 \<and>
   opens_of 1 (trace (main example_env)) = 0 \<and>
   opens_of 2 (trace (main example_env)) = 1 \<and>
   opens_of 3 (trace (main example_env)) = 0 \<and>
   attaches (trace (main example_env)) = 2 \<and>
   attr_freq hw_attr"
proof -
  have a: "spec_attr (getopt_long example_env) = hw_attr"
    by (simp add: spec_attr_def sw_event_mode_def spec_frequency_def example_env_def hw_attr_def)
  have f: "\<And>cpu. fst (perf_event_open example_env hw_attr cpu) = int cpu + 3"
    by (simp add: example_env_def)
  have u: "unit_online example_env 0" "\<not> unit_online example_env 1"
    "unit_online example_env 2" "\<not> unit_online example_env 3"
    by (simp_all add: unit_online_def example_env_def)
  from one_counter_per_online_unit [OF example_env_ok] u show ?thesis
    by (simp add: example_env_online a f example_env_ok)
qed

subsection \<open>The sampling frequency\<close>

text \<open>
  C9. Every counter that any run of main creates has sampling by frequency, with the
  frequency 1 when there is no \<^verbatim>\<open>-f\<close> option, 1 when the argument of \<^verbatim>\<open>-f\<close> (as \<^verbatim>\<open>atoi\<close> reads
  it) is 0 or negative, and the argument itself when it is at least 1.
\<close>

theorem sampling_frequency_clamped:
  "\<forall>a cpu. Perf_event_open a cpu \<in> set (trace (main env)) \<longrightarrow>
     attr_freq a \<and>
     attr_sample_freq a =
       (case last_f (getopt_long env) of None \<Rightarrow> 1 | Some v \<Rightarrow> if v \<le> 0 then 1 else v)"
  by (auto dest!: main_opens_attr simp: spec_attr_def spec_frequency_def)

text \<open>
With \<^verbatim>\<open>-f -5\<close> the counter of CPU 0 is created with the frequency 1.
\<close>

theorem sampling_frequency_clamped_witness:
  "last_f (getopt_long example_env) = Some (- 5) \<and>
   Perf_event_open hw_attr 0 \<in> set (trace (main example_env)) \<and>
   attr_freq hw_attr \<and> attr_sample_freq hw_attr = 1"
proof -
  have l: "last_f (getopt_long example_env) = Some (- 5)"
    by (simp add: example_env_def)
  have m: "Perf_event_open hw_attr 0 \<in> set (trace (main example_env))"
    by (simp add: example_env_run example_env_trace_def)
  with sampling_frequency_clamped [of example_env] l
  have "attr_freq hw_attr \<and> attr_sample_freq hw_attr = 1"
    by fastforce
  with l m show ?thesis
    by simp
qed

subsection \<open>A unit that fails\<close>



subsection \<open>The exit status\<close>




end
